theory Spec2Isabelle
  imports Complex_Main "HOL-Library.Char_ord" "HOL-Library.List_Lexorder"
    "HOL-Library.Product_Lexorder"
begin

section \<open>The chat client of the customer support bot (frontend/js/main.js)\<close>

text \<open>
  The client is one closure run on \<^verbatim>\<open>DOMContentLoaded\<close>. Its state is the part of the
  document it reads and writes, the session identifier it draws once, and the trace of the
  \<^verbatim>\<open>fetch\<close> calls it has made. Every event handler of the source is a function on that
  state. A promise callback is a function too: the browser calls it later, with the
  outcome of the request, so it is an event of its own.

  JavaScript strings are modelled as \<^typ>\<open>string\<close>, each \<^typ>\<open>char\<close> read as
  the code unit of the same number (U+0000 to U+00FF).
\<close>

subsection \<open>String operations of the JavaScript library\<close>

text \<open>White space for \<^verbatim>\<open>String.prototype.trim\<close>: TAB, LF, VT, FF, CR, SP and NBSP.\<close>

definition is_js_space :: "char \<Rightarrow> bool" where
  "is_js_space c = (of_char c \<in> {9::nat, 10, 11, 12, 13, 32, 160})"

definition trim :: "string \<Rightarrow> string" where
  "trim s = rev (dropWhile is_js_space (rev (dropWhile is_js_space s)))"

text \<open>
  \<^verbatim>\<open>s.split(c)\<close> with a one-character separator: the pieces between the separators, one
  piece more than there are separators (so the empty string gives one empty piece).
\<close>

fun split_on :: "char \<Rightarrow> string \<Rightarrow> string list" where
  "split_on c [] = [[]]"
| "split_on c (x # xs) =
     (if x = c then [] # split_on c xs
      else (let r = split_on c xs in (x # hd r) # tl r))"

text \<open>\<^verbatim>\<open>s.lastIndexOf(c)\<close>: the index of the last occurrence, or -1.\<close>

definition lastIndexOf :: "char \<Rightarrow> string \<Rightarrow> int" where
  "lastIndexOf c s =
     (if c \<in> set s then int (length s) - 1 - int (length (takeWhile (\<lambda>x. x \<noteq> c) (rev s)))
      else - 1)"

text \<open>
  \<^verbatim>\<open>s.substring(start, end)\<close>: both indices are clamped to the string, and swapped
  when start is the larger. \<^verbatim>\<open>s.substring(start)\<close> runs to the end of the string.
\<close>

definition clamp_index :: "string \<Rightarrow> int \<Rightarrow> nat" where
  "clamp_index s i = min (nat i) (length s)"

definition substring2 :: "int \<Rightarrow> int \<Rightarrow> string \<Rightarrow> string" where
  "substring2 start end s =
     (let a = clamp_index s start; b = clamp_index s end
      in take (max a b - min a b) (drop (min a b) s))"

definition substring1 :: "int \<Rightarrow> string \<Rightarrow> string" where
  "substring1 start s = drop (clamp_index s start) s"

text \<open>
  \<^verbatim>\<open>toLowerCase\<close> on the code units below 256: A to Z, and the capital letters of
  Latin-1 (U+00C0 to U+00DE without the multiplication sign U+00D7), move up by 32.
\<close>

definition lower_char :: "char \<Rightarrow> char" where
  "lower_char c =
     (let n = (of_char c :: nat)
      in if (65 \<le> n \<and> n \<le> 90) \<or> (192 \<le> n \<and> n \<le> 222 \<and> n \<noteq> 215)
         then char_of (n + 32) else c)"

definition toLowerCase :: "string \<Rightarrow> string" where
  "toLowerCase s = map lower_char s"

text \<open>Decimal digits, for the string form of a number.\<close>

definition digit_char :: "nat \<Rightarrow> char" where
  "digit_char d = char_of (48 + d)"

fun dec_nat :: "nat \<Rightarrow> string" where
  "dec_nat n = (if n < 10 then [digit_char n] else dec_nat (n div 10) @ [digit_char (n mod 10)])"

declare dec_nat.simps [simp del]

definition dec_int :: "int \<Rightarrow> string" where
  "dec_int i = (if i < 0 then CHR ''-'' # dec_nat (nat (- i)) else dec_nat (nat i))"

subsection \<open>Citation markers\<close>

text \<open>
  \<^verbatim>\<open>/\[Document (\d+)\]/g\<close> matches, at a position, the ten characters
  \<^verbatim>\<open>[Document \<close>, then one or more of the digits 0 to 9, then \<^verbatim>\<open>]\<close>. The digits are
  taken greedily, and giving one back never helps: the character after the closing
  bracket's place would be a digit. \<open>match_marker\<close> returns the digits and the text after
  the match.
\<close>

definition is_digit :: "char \<Rightarrow> bool" where
  "is_digit c = (CHR ''0'' \<le> c \<and> c \<le> CHR ''9'')"

definition marker_open :: string where
  "marker_open = ''[Document ''"

definition match_marker :: "string \<Rightarrow> (string \<times> string) option" where
  "match_marker s =
     (if take (length marker_open) s = marker_open then
        (let r = drop (length marker_open) s;
             ds = takeWhile is_digit r;
             rest = dropWhile is_digit r
         in if ds \<noteq> [] \<and> rest \<noteq> [] \<and> hd rest = CHR '']'' then Some (ds, tl rest) else None)
      else None)"

text \<open>The replacement \<^verbatim>\<open><span class="source">Source $1</span>\<close>.\<close>

definition source_span :: "string \<Rightarrow> string" where
  "source_span ds = ''<span class=\"source\">Source '' @ ds @ ''</span>''"

lemma match_marker_shorter:
  "match_marker s = Some (ds, rest) \<Longrightarrow> length rest < length s"
proof -
  assume m: "match_marker s = Some (ds, rest)"
  let ?r = "drop (length marker_open) s"
  from m have rest: "rest = tl (dropWhile is_digit ?r)" and ne: "dropWhile is_digit ?r \<noteq> []"
    by (auto simp: match_marker_def Let_def split: if_splits)
  have "length (dropWhile is_digit ?r) \<le> length ?r"
    by (rule length_dropWhile_le)
  moreover have "length (tl (dropWhile is_digit ?r)) < length (dropWhile is_digit ?r)"
    using ne by (cases "dropWhile is_digit ?r") auto
  ultimately show ?thesis using rest by simp
qed

text \<open>
  \<^verbatim>\<open>content.replace(regex, replacement)\<close> with the global flag: scan from the left;
  where the pattern matches, emit the replacement and go on after the match; elsewhere
  copy one character.
\<close>

function replace_citations :: "string \<Rightarrow> string" where
  "replace_citations [] = []"
| "replace_citations (c # cs) =
     (case match_marker (c # cs) of
        Some (ds, rest) \<Rightarrow> source_span ds @ replace_citations rest
      | None \<Rightarrow> c # replace_citations cs)"
  by pat_completeness auto
termination
  by (relation "measure length") (auto dest: match_marker_shorter)

text \<open>Whether the pattern matches anywhere in a text.\<close>

fun has_marker :: "string \<Rightarrow> bool" where
  "has_marker [] = False"
| "has_marker (c # cs) = (match_marker (c # cs) \<noteq> None \<or> has_marker cs)"

subsection \<open>JavaScript values\<close>

text \<open>
  The numbers that are represented: the integers below \<open>2^53\<close> in magnitude, which a
  JavaScript number holds exactly and prints as a decimal numeral.
\<close>

typedef safe_int = "{i::int. - (2 ^ 53) < i \<and> i < 2 ^ 53}"
  by (rule exI [of _ 0]) simp

text \<open>
  What \<^verbatim>\<open>response.json()\<close> resolves to, and what reading a property of it gives.
  \<open>JObj\<close> lists the own properties of a parsed object.
\<close>

datatype jsval =
    JUndefined
  | JNull
  | JBool bool
  | JNum safe_int
  | JStr string
  | JArr "jsval list"
  | JObj "(string \<times> jsval) list"

datatype js_error = TypeError | NotFoundError

text \<open>\<^verbatim>\<open>ToBoolean\<close>, as \<^verbatim>\<open>if (v)\<close> and \<^verbatim>\<open>v || w\<close> apply it.\<close>

fun truthy :: "jsval \<Rightarrow> bool" where
  "truthy JUndefined = False"
| "truthy JNull = False"
| "truthy (JBool b) = b"
| "truthy (JNum n) = (Rep_safe_int n \<noteq> 0)"
| "truthy (JStr s) = (s \<noteq> [])"
| "truthy (JArr xs) = True"
| "truthy (JObj kvs) = True"

text \<open>
  \<^verbatim>\<open>data.name\<close> for the names the client reads (success, response, error, message,
  status; none of them is a property of a prototype): a \<^verbatim>\<open>TypeError\<close> on
  \<^verbatim>\<open>null\<close> and \<^verbatim>\<open>undefined\<close>, the own property of an object, and
  \<^verbatim>\<open>undefined\<close> otherwise.
\<close>

fun get_prop :: "jsval \<Rightarrow> string \<Rightarrow> js_error + jsval" where
  "get_prop JUndefined k = Inl TypeError"
| "get_prop JNull k = Inl TypeError"
| "get_prop (JObj kvs) k = Inr (case map_of kvs k of None \<Rightarrow> JUndefined | Some v \<Rightarrow> v)"
| "get_prop v k = Inr JUndefined"

text \<open>\<^verbatim>\<open>v || w\<close>.\<close>

definition js_or :: "jsval \<Rightarrow> jsval \<Rightarrow> jsval" where
  "js_or v w = (if truthy v then v else w)"

text \<open>
  \<^verbatim>\<open>ToString\<close>, as a template literal and the \<^verbatim>\<open>textContent\<close> setter apply it
  to a value other than \<^verbatim>\<open>null\<close>. An object is converted by its \<^verbatim>\<open>toString\<close>
  method: the inherited one gives \<^verbatim>\<open>[object Object]\<close>, but an own property of that
  name hides it, and a property of a parsed object is never a function, so the conversion
  throws a \<^verbatim>\<open>TypeError\<close>. An array joins its elements with commas, \<^verbatim>\<open>null\<close>
  and \<^verbatim>\<open>undefined\<close> elements giving the empty string, and throws when the
  conversion of an element does.
\<close>

fun join_comma :: "string list \<Rightarrow> string" where
  "join_comma [] = []"
| "join_comma [x] = x"
| "join_comma (x # y # ys) = x @ '','' @ join_comma (y # ys)"

fun to_string :: "jsval \<Rightarrow> js_error + string" where
  "to_string JUndefined = Inr ''undefined''"
| "to_string JNull = Inr ''null''"
| "to_string (JBool b) = Inr (if b then ''true'' else ''false'')"
| "to_string (JNum n) = Inr (dec_int (Rep_safe_int n))"
| "to_string (JStr s) = Inr s"
| "to_string (JArr xs) =
     (let rs = map (\<lambda>x. if x = JNull \<or> x = JUndefined then Inr [] else to_string x) xs
      in if \<exists>r \<in> set rs. isl r then Inl TypeError else Inr (join_comma (map projr rs)))"
| "to_string (JObj kvs) =
     (if ''toString'' \<in> fst ` set kvs then Inl TypeError else Inr ''[object Object]'')"

text \<open>
  \<^verbatim>\<open>JSON.stringify\<close> of an object literal: a property whose value is
  \<^verbatim>\<open>undefined\<close> is left out. The body of a request is kept as the value the
  serialised text denotes.
\<close>

definition json_object :: "(string \<times> jsval) list \<Rightarrow> jsval" where
  "json_object kvs = JObj (filter (\<lambda>kv. snd kv \<noteq> JUndefined) kvs)"

subsection \<open>The page\<close>

text \<open>
  A child of \<^verbatim>\<open>#chat-messages\<close>: the element's identity, its class, and what it holds
  (the \<^verbatim>\<open>innerHTML\<close> given to each paragraph of a message, or the dots of a typing
  indicator).
\<close>

datatype node_body = Paragraphs "string list" | TypingDots string

datatype node = Node (node_id: nat) (node_class: string) (node_body: node_body)

text \<open>A \<^verbatim>\<open>File\<close> of the file input; the client reads its name only.\<close>

record jsfile =
  file_name :: string

text \<open>A call of \<^verbatim>\<open>fetch\<close>: the address, and the method, headers and body of its options.\<close>

record request =
  req_url :: string
  req_method :: string
  req_headers :: "(string \<times> string) list"
  req_body :: "jsval option"

text \<open>
  The state of the page: the children of \<^verbatim>\<open>#chat-messages\<close>, the value and the height
  of the text area, the first file of the file input, the display of the dialogue, the
  confirm button, the status line and the progress bar; the session identifier; the
  requests sent and the lines written to the console, in order; and what the browser
  holds for the callbacks the client has registered and that have not run yet: the
  timers set, the typing indicators of the chat requests in flight, the files being read,
  the files posted, and whether the health check is in flight.
\<close>

record page =
  chat_messages :: "node list"
  chat_input :: string
  chat_input_height :: string
  file_upload :: "jsfile option"
  upload_modal_display :: string
  confirm_disabled :: bool
  upload_status_text :: string
  upload_status_class :: string
  upload_progress_width :: string
  sessionId :: string
  requests :: "request list"
  console :: "string list"
  timers :: nat
  pending_chat :: "nat list"
  pending_reads :: "jsfile list"
  pending_uploads :: "jsfile list"
  pending_health :: bool
  next_id :: nat

definition API_URL :: string where
  "API_URL = ''https://bzswdbk000.execute-api.us-east-1.amazonaws.com/prod''"

definition CHAT_ENDPOINT :: string where
  "CHAT_ENDPOINT = API_URL @ ''/api/chat''"

definition UPLOAD_ENDPOINT :: string where
  "UPLOAD_ENDPOINT = API_URL @ ''/api/upload''"

definition HEALTH_ENDPOINT :: string where
  "HEALTH_ENDPOINT = API_URL @ ''/api/health''"

text \<open>
  \<^verbatim>\<open>fetch(url, options)\<close> sends the request; its outcome reaches the promise
  callbacks later. \<^verbatim>\<open>fetch(url)\<close> alone is a GET with no body.
\<close>

definition fetch_post :: "string \<Rightarrow> jsval \<Rightarrow> page \<Rightarrow> page" where
  "fetch_post url body s =
     s\<lparr>requests := requests s @
        [\<lparr>req_url = url, req_method = ''POST'',
          req_headers = [(''Content-Type'', ''application/json'')],
          req_body = Some body\<rparr>]\<rparr>"

definition fetch_get :: "string \<Rightarrow> page \<Rightarrow> page" where
  "fetch_get url s =
     s\<lparr>requests := requests s @
        [\<lparr>req_url = url, req_method = ''GET'', req_headers = [], req_body = None\<rparr>]\<rparr>"

text \<open>
  The outcome of \<^verbatim>\<open>fetch(...).then(response => response.json())\<close>: the parsed body,
  or a rejection (the network failed, or the body is not JSON).
\<close>

datatype fetch_outcome = Resolved jsval | Rejected

subsection \<open>The chat\<close>

text \<open>
  \<^verbatim>\<open>addMessageToChat(sender, content)\<close>. \<^verbatim>\<open>content.replace\<close> (for the bot) and
  \<^verbatim>\<open>content.split\<close> exist on strings only: any other content throws a
  \<^verbatim>\<open>TypeError\<close> before anything is attached to the document. The scroll position
  depends on the layout and is not part of the state.
\<close>

definition newline :: char where
  "newline = CHR 0x0A"

definition formattedContent :: "string \<Rightarrow> string \<Rightarrow> string" where
  "formattedContent sender c = (if sender = ''bot'' then replace_citations c else c)"

definition paragraphs :: "string \<Rightarrow> string \<Rightarrow> string list" where
  "paragraphs sender c =
     filter (\<lambda>p. trim p \<noteq> []) (split_on newline (formattedContent sender c))"

definition addMessageToChat :: "string \<Rightarrow> jsval \<Rightarrow> page \<Rightarrow> js_error + page" where
  "addMessageToChat sender content s =
     (case content of
        JStr c \<Rightarrow>
          Inr (s\<lparr>chat_messages := chat_messages s @
                    [Node (next_id s) (''message '' @ sender) (Paragraphs (paragraphs sender c))],
                 next_id := Suc (next_id s)\<rparr>)
      | _ \<Rightarrow> Inl TypeError)"

definition addTypingIndicator :: "page \<Rightarrow> nat \<times> page" where
  "addTypingIndicator s =
     (next_id s,
      s\<lparr>chat_messages := chat_messages s @
           [Node (next_id s) ''message bot typing-indicator''
              (TypingDots ''<span>.</span><span>.</span><span>.</span>'')],
        next_id := Suc (next_id s)\<rparr>)"

text \<open>
  \<^verbatim>\<open>chatMessages.removeChild(node)\<close> throws a \<^verbatim>\<open>NotFoundError\<close> when the node is
  not a child. A node is named by its identity, which no other node has.
\<close>

definition removeChild :: "nat \<Rightarrow> page \<Rightarrow> js_error + page" where
  "removeChild i s =
     (if i \<in> node_id ` set (chat_messages s)
      then Inr (s\<lparr>chat_messages := filter (\<lambda>n. node_id n \<noteq> i) (chat_messages s)\<rparr>)
      else Inl NotFoundError)"

text \<open>
  \<^verbatim>\<open>sendMessage()\<close> up to the \<^verbatim>\<open>fetch\<close> call and the registration of its two
  callbacks. The typing indicator it creates is the one they remove, and stands for the
  request while it is in flight.
\<close>

definition sendMessage :: "page \<Rightarrow> page" where
  "sendMessage s =
     (let message = trim (chat_input s) in
      if message = [] then s
      else
        (case addMessageToChat ''user'' (JStr message) s of
           Inl e \<Rightarrow> s
         | Inr s1 \<Rightarrow>
             (let s2 = s1\<lparr>chat_input := [], chat_input_height := ''auto''\<rparr>;
                  (typingIndicator, s3) = addTypingIndicator s2;
                  s4 = fetch_post CHAT_ENDPOINT
                         (json_object [(''message'', JStr message),
                                       (''session_id'', JStr (sessionId s3))]) s3
              in s4\<lparr>pending_chat := pending_chat s4 @ [typingIndicator]\<rparr>)))"

text \<open>
  A callback returns the page it leaves and the exception it threw, if any: what it did
  before throwing stays done.
\<close>

definition apology :: string where
  "apology = ''I'' @ [CHR 0x27] @
     ''m sorry, there was an error processing your request. Please try again later.''"

text \<open>The \<^verbatim>\<open>.then(data => ...)\<close> callback of \<^verbatim>\<open>sendMessage\<close>.\<close>

definition chat_then :: "nat \<Rightarrow> jsval \<Rightarrow> page \<Rightarrow> js_error option \<times> page" where
  "chat_then typingIndicator data s =
     (case removeChild typingIndicator s of
        Inl e \<Rightarrow> (Some e, s)
      | Inr s1 \<Rightarrow>
          (case get_prop data ''success'' of
             Inl e \<Rightarrow> (Some e, s1)
           | Inr success \<Rightarrow>
               (if truthy success then
                  (case get_prop data ''response'' of
                     Inl e \<Rightarrow> (Some e, s1)
                   | Inr response \<Rightarrow>
                       (case addMessageToChat ''bot'' response s1 of
                          Inl e \<Rightarrow> (Some e, s1)
                        | Inr s2 \<Rightarrow> (None, s2)))
                else
                  (case get_prop data ''error'' of
                     Inl e \<Rightarrow> (Some e, s1)
                   | Inr err \<Rightarrow>
                       (case to_string (js_or err (JStr ''Unknown error occurred'')) of
                          Inl e \<Rightarrow> (Some e, s1)
                        | Inr text \<Rightarrow>
                            (case addMessageToChat ''bot'' (JStr (''Error: '' @ text)) s1 of
                               Inl e \<Rightarrow> (Some e, s1)
                             | Inr s2 \<Rightarrow> (None, s2)))))))"

text \<open>The \<^verbatim>\<open>.catch(error => ...)\<close> callback of \<^verbatim>\<open>sendMessage\<close>.\<close>

definition chat_catch :: "nat \<Rightarrow> page \<Rightarrow> js_error option \<times> page" where
  "chat_catch typingIndicator s =
     (case removeChild typingIndicator s of
        Inl e \<Rightarrow> (Some e, s)
      | Inr s1 \<Rightarrow>
          (case addMessageToChat ''bot'' (JStr apology) s1 of
             Inl e \<Rightarrow> (Some e, s1)
           | Inr s2 \<Rightarrow> (None, s2\<lparr>console := console s2 @ [''Error sending message:'']\<rparr>)))"

text \<open>
  The chain \<^verbatim>\<open>.then(...).catch(...)\<close>, once the request has completed and is in
  flight no more: the catch callback runs when the request is rejected and when the then
  callback throws. What the catch callback throws is an unhandled rejection: nothing else
  runs.
\<close>

definition chat_reply :: "nat \<Rightarrow> fetch_outcome \<Rightarrow> page \<Rightarrow> js_error option \<times> page" where
  "chat_reply typingIndicator outcome s =
     (let s0 = s\<lparr>pending_chat := removeAll typingIndicator (pending_chat s)\<rparr>
      in case outcome of
           Rejected \<Rightarrow> chat_catch typingIndicator s0
         | Resolved data \<Rightarrow>
             (case chat_then typingIndicator data s0 of
                (None, s1) \<Rightarrow> (None, s1)
              | (Some e, s1) \<Rightarrow> chat_catch typingIndicator s1))"

text \<open>\<^verbatim>\<open>handleInputKeypress(e)\<close>.\<close>

definition handleInputKeypress :: "string \<Rightarrow> bool \<Rightarrow> page \<Rightarrow> page" where
  "handleInputKeypress key shiftKey s =
     (if key = ''Enter'' \<and> \<not> shiftKey then sendMessage s else s)"

text \<open>
  \<^verbatim>\<open>autoResizeTextarea()\<close>, on the input event that follows an edit of the text area;
  the new text and the \<^verbatim>\<open>scrollHeight\<close> the layout gives it come from the browser.
\<close>

definition autoResizeTextarea :: "nat \<Rightarrow> page \<Rightarrow> page" where
  "autoResizeTextarea scrollHeight s = s\<lparr>chat_input_height := dec_nat scrollHeight @ ''px''\<rparr>"

subsection \<open>The upload dialogue\<close>

definition closeUploadModal :: "page \<Rightarrow> page" where
  "closeUploadModal s = s\<lparr>upload_modal_display := ''none''\<rparr>"

text \<open>\<^verbatim>\<open>resetUploadState()\<close>; clearing the value of a file input empties its file list.\<close>

definition resetUploadState :: "page \<Rightarrow> page" where
  "resetUploadState s =
     s\<lparr>file_upload := None, upload_status_text := [], upload_progress_width := ''0'',
       confirm_disabled := True\<rparr>"

definition openUploadModal :: "page \<Rightarrow> page" where
  "openUploadModal s = resetUploadState (s\<lparr>upload_modal_display := ''flex''\<rparr>)"

definition validTypes :: "string list" where
  "validTypes = [''.pdf'', ''.txt'', ''.docx'']"

definition fileExtension :: "string \<Rightarrow> string" where
  "fileExtension name = toLowerCase (substring1 (lastIndexOf CHR ''.'' name) name)"

text \<open>
  \<^verbatim>\<open>handleFileSelect(e)\<close>, on the change event of the file input; \<^verbatim>\<open>e.target.files[0]\<close>
  is the first file of the input's list.
\<close>

definition handleFileSelect :: "page \<Rightarrow> page" where
  "handleFileSelect s =
     (case file_upload s of
        None \<Rightarrow> s
      | Some file \<Rightarrow>
          (if fileExtension (file_name file) \<notin> set validTypes then
             s\<lparr>upload_status_text :=
                  ''Invalid file type. Please select a PDF, TXT, or DOCX file.'',
               upload_status_class := ''text-error''\<rparr>
           else
             s\<lparr>upload_status_text := ''Selected file: '' @ file_name file,
               upload_status_class := [],
               confirm_disabled := False\<rparr>))"

text \<open>
  \<^verbatim>\<open>uploadDocument()\<close> up to \<^verbatim>\<open>reader.readAsDataURL(file)\<close>, which starts the
  read. The file it took from the input is the one its callbacks name, whatever the input
  holds by then.
\<close>

definition uploadDocument :: "page \<Rightarrow> page" where
  "uploadDocument s =
     (case file_upload s of
        None \<Rightarrow>
          s\<lparr>upload_status_text := ''Please select a file first.'',
            upload_status_class := ''text-error''\<rparr>
      | Some file \<Rightarrow>
          s\<lparr>upload_status_text := ''Uploading...'',
            confirm_disabled := True,
            upload_progress_width := ''0'',
            pending_reads := pending_reads s @ [file]\<rparr>)"

text \<open>
  \<^verbatim>\<open>reader.onload\<close>: \<^verbatim>\<open>e.target.result.split(',')[1]\<close> is the second piece of the data
  URL, or \<^verbatim>\<open>undefined\<close> when the URL has no comma.
\<close>

definition base64Data :: "string \<Rightarrow> jsval" where
  "base64Data result =
     (let pieces = split_on CHR '','' result
      in if 1 < length pieces then JStr (pieces ! 1) else JUndefined)"

definition reader_onload :: "jsfile \<Rightarrow> string \<Rightarrow> page \<Rightarrow> page" where
  "reader_onload file result s =
     (let s1 = fetch_post UPLOAD_ENDPOINT
                 (json_object [(''file'', base64Data result),
                               (''filename'', JStr (file_name file))]) s
      in s1\<lparr>pending_uploads := pending_uploads s1 @ [file]\<rparr>)"

definition reader_onerror :: "page \<Rightarrow> page" where
  "reader_onerror s =
     s\<lparr>upload_status_text := ''Error reading file. Please try again.'',
       upload_status_class := ''text-error'',
       confirm_disabled := False\<rparr>"

definition learned_message :: "string \<Rightarrow> string" where
  "learned_message name =
     ''I'' @ [CHR 0x27] @ ''ve learned new information from \"'' @ name @
     ''\". You can now ask me questions about it!''"

text \<open>
  The \<^verbatim>\<open>.then(data => ...)\<close> callback of the upload. The value given to
  \<^verbatim>\<open>textContent\<close> is converted to a string before anything is assigned, so a
  conversion that throws leaves the page as it was. \<^verbatim>\<open>setTimeout(closeUploadModal,
  2000)\<close> leaves a timer pending.
\<close>

definition upload_then :: "jsfile \<Rightarrow> jsval \<Rightarrow> page \<Rightarrow> js_error option \<times> page" where
  "upload_then file data s =
     (case get_prop data ''success'' of
        Inl e \<Rightarrow> (Some e, s)
      | Inr success \<Rightarrow>
          (if truthy success then
             (case get_prop data ''message'' of
                Inl e \<Rightarrow> (Some e, s)
              | Inr message \<Rightarrow>
                  (case to_string (js_or message (JStr ''Document uploaded successfully!'')) of
                     Inl e \<Rightarrow> (Some e, s)
                   | Inr text \<Rightarrow>
                       (let s1 = s\<lparr>upload_status_text := text,
                                   upload_status_class := ''text-success'',
                                   upload_progress_width := ''100%''\<rparr>
                        in case addMessageToChat ''bot''
                                  (JStr (learned_message (file_name file))) s1 of
                             Inl e \<Rightarrow> (Some e, s1)
                           | Inr s2 \<Rightarrow> (None, s2\<lparr>timers := Suc (timers s2)\<rparr>))))
           else
             (case get_prop data ''error'' of
                Inl e \<Rightarrow> (Some e, s)
              | Inr err \<Rightarrow>
                  (case to_string (js_or err (JStr ''Unknown error'')) of
                     Inl e \<Rightarrow> (Some e, s)
                   | Inr text \<Rightarrow>
                       (None,
                        s\<lparr>upload_status_text := ''Error: '' @ text,
                          upload_status_class := ''text-error'',
                          confirm_disabled := False\<rparr>)))))"

definition upload_catch :: "page \<Rightarrow> js_error option \<times> page" where
  "upload_catch s =
     (None,
      s\<lparr>upload_status_text := ''Upload failed. Please try again.'',
        upload_status_class := ''text-error'',
        confirm_disabled := False,
        console := console s @ [''Error uploading document:'']\<rparr>)"

definition upload_reply :: "jsfile \<Rightarrow> fetch_outcome \<Rightarrow> page \<Rightarrow> js_error option \<times> page" where
  "upload_reply file outcome s =
     (let s0 = s\<lparr>pending_uploads := remove1 file (pending_uploads s)\<rparr>
      in case outcome of
           Rejected \<Rightarrow> upload_catch s0
         | Resolved data \<Rightarrow>
             (case upload_then file data s0 of
                (None, s1) \<Rightarrow> (None, s1)
              | (Some e, s1) \<Rightarrow> upload_catch s1))"

subsection \<open>The health check\<close>

definition checkHealth :: "page \<Rightarrow> page" where
  "checkHealth s = (fetch_get HEALTH_ENDPOINT s)\<lparr>pending_health := True\<rparr>"

definition health_warning :: string where
  "health_warning =
     ''Warning: Some services may not be functioning properly. Your experience might be affected.''"

text \<open>
  The \<^verbatim>\<open>.then(data => ...)\<close> callback: \<^verbatim>\<open>data.status !== 'healthy'\<close> is strict, so
  only the string itself passes.
\<close>

definition health_then :: "jsval \<Rightarrow> page \<Rightarrow> js_error option \<times> page" where
  "health_then data s =
     (let s1 = s\<lparr>console := console s @ [''Health status:'']\<rparr>
      in case get_prop data ''status'' of
           Inl e \<Rightarrow> (Some e, s1)
         | Inr status \<Rightarrow>
             (if status \<noteq> JStr ''healthy'' then
                (case addMessageToChat ''bot'' (JStr health_warning) s1 of
                   Inl e \<Rightarrow> (Some e, s1)
                 | Inr s2 \<Rightarrow> (None, s2))
              else (None, s1)))"

definition health_catch :: "page \<Rightarrow> js_error option \<times> page" where
  "health_catch s = (None, s\<lparr>console := console s @ [''Error checking health:'']\<rparr>)"

definition health_reply :: "fetch_outcome \<Rightarrow> page \<Rightarrow> js_error option \<times> page" where
  "health_reply outcome s =
     (let s0 = s\<lparr>pending_health := False\<rparr>
      in case outcome of
           Rejected \<Rightarrow> health_catch s0
         | Resolved data \<Rightarrow>
             (case health_then data s0 of
                (None, s1) \<Rightarrow> (None, s1)
              | (Some e, s1) \<Rightarrow> health_catch s1))"

subsection \<open>Loading the page, and the events after it\<close>

text \<open>
  The \<^verbatim>\<open>DOMContentLoaded\<close> listener: draw the session identifier, attach the
  listeners, check the health of the service. \<open>random36\<close> is the string
  \<^verbatim>\<open>Math.random().toString(36)\<close>, and \<open>doc\<close> the document as the browser parsed it.
  Identities of elements created later are drawn above those of the document.
\<close>

definition fresh_id :: "node list \<Rightarrow> nat" where
  "fresh_id ns = Suc (foldr max (map node_id ns) 0)"

definition page_load :: "string \<Rightarrow> page \<Rightarrow> page" where
  "page_load random36 doc =
     checkHealth
       (doc\<lparr>sessionId := ''session_'' @ substring2 2 15 random36,
            requests := [], console := [], timers := 0,
            pending_chat := [], pending_reads := [], pending_uploads := [],
            pending_health := False,
            next_id := fresh_id (chat_messages doc)\<rparr>)"

text \<open>
  What can happen after the page is loaded: the user edits the text area, presses a key
  in it, clicks a button, picks a file; a request, a file read or the timer completes.
  A click on a disabled button dispatches nothing, and a completion is delivered only to
  callbacks that wait for it: a chat reply to a request in flight, named by its typing
  indicator; the end of a read to a file being read; an upload reply to a file posted; the
  health reply once; the timer when one is set. \<^verbatim>\<open>uploadTextDocument\<close> is attached to
  no event and never runs.
\<close>

datatype event =
    EditInput string nat
  | KeyPress string bool
  | ClickSend
  | ChatReply nat fetch_outcome
  | ClickUpload
  | ClickCloseModal
  | ChangeFile "jsfile option"
  | ClickConfirm
  | ReaderLoad jsfile string
  | ReaderError jsfile
  | UploadReply jsfile fetch_outcome
  | HealthReply fetch_outcome
  | TimerFires

fun step :: "page \<Rightarrow> event \<Rightarrow> page" where
  "step s (EditInput v h) = autoResizeTextarea h (s\<lparr>chat_input := v\<rparr>)"
| "step s (KeyPress key shiftKey) = handleInputKeypress key shiftKey s"
| "step s ClickSend = sendMessage s"
| "step s (ChatReply typingIndicator outcome) =
     (if typingIndicator \<in> set (pending_chat s)
      then snd (chat_reply typingIndicator outcome s) else s)"
| "step s ClickUpload = openUploadModal s"
| "step s ClickCloseModal = closeUploadModal s"
| "step s (ChangeFile f) = handleFileSelect (s\<lparr>file_upload := f\<rparr>)"
| "step s ClickConfirm = (if confirm_disabled s then s else uploadDocument s)"
| "step s (ReaderLoad file result) =
     (if file \<in> set (pending_reads s)
      then reader_onload file result (s\<lparr>pending_reads := remove1 file (pending_reads s)\<rparr>)
      else s)"
| "step s (ReaderError file) =
     (if file \<in> set (pending_reads s)
      then reader_onerror (s\<lparr>pending_reads := remove1 file (pending_reads s)\<rparr>)
      else s)"
| "step s (UploadReply file outcome) =
     (if file \<in> set (pending_uploads s) then snd (upload_reply file outcome s) else s)"
| "step s (HealthReply outcome) =
     (if pending_health s then snd (health_reply outcome s) else s)"
| "step s TimerFires =
     (if 0 < timers s then closeUploadModal (s\<lparr>timers := timers s - 1\<rparr>) else s)"

definition run :: "page \<Rightarrow> event list \<Rightarrow> page" where
  "run s evs = foldl step s evs"

text \<open>
  The \<^verbatim>\<open>session_id\<close> a request carries in its body, and the property that every
  request to the chat endpoint carries a given one.
\<close>

definition session_id_of :: "request \<Rightarrow> jsval" where
  "session_id_of r =
     (case req_body r of
        None \<Rightarrow> JUndefined
      | Some b \<Rightarrow> (case get_prop b ''session_id'' of Inl e \<Rightarrow> JUndefined | Inr v \<Rightarrow> v))"

definition carries_session :: "string \<Rightarrow> page \<Rightarrow> bool" where
  "carries_session sid s =
     (\<forall>r \<in> set (requests s). req_url r = CHAT_ENDPOINT \<longrightarrow> session_id_of r = JStr sid)"

text \<open>A document with an empty chat, an empty text area and a closed dialogue.\<close>

definition blank_page :: page where
  "blank_page =
     \<lparr>chat_messages = [], chat_input = [], chat_input_height = [], file_upload = None,
      upload_modal_display = ''none'', confirm_disabled = True, upload_status_text = [],
      upload_status_class = [], upload_progress_width = [], sessionId = [], requests = [],
      console = [], timers = 0, pending_chat = [], pending_reads = [],
      pending_uploads = [], pending_health = False, next_id = 0\<rparr>"

section \<open>The Vector Store and the Retrieval Engine\<close>

text \<open>
  The sources hold the client only; the store it talks to through the chat and upload
  interfaces is described by the specification. Rounding of floating-point scores is not
  modelled: a vector is a list of reals.
\<close>

text \<open>
  Modelled from the spec: the error kinds of the service (section 7), raised by components
  that are not in the sources.
\<close>

datatype error_kind =
    UnsupportedFormat
  | ExtractionError
  | EmptyDocument
  | EmbeddingServiceError
  | GenerationServiceError
  | VectorStoreError

text \<open>
  Modelled from the spec: the persisted layout of the Vector Store, which is not in the
  sources. One record per chunk, \<^verbatim>\<open>(document_id, ordinal, text, vector, version_tag)\<close>,
  with the creation timestamp of the chunk.
\<close>

record chunk =
  document_id :: string
  ordinal :: nat
  chunk_text :: string
  vector :: "real list"
  created :: nat
  version_tag :: nat

text \<open>
  Modelled from the spec: the state of the Vector Store, which is not in the sources.
  The records written so far, and for each document the version tag its readers are
  pointed at.
\<close>

record vector_store =
  records :: "chunk list"
  pointer :: "string \<Rightarrow> nat option"

text \<open>
  Modelled from the spec: what a reader of the Vector Store (not in the sources) sees.
  Records are filtered by the version tag the document's pointer names.
\<close>

definition visible :: "vector_store \<Rightarrow> chunk list" where
  "visible st = filter (\<lambda>c. pointer st (document_id c) = Some (version_tag c)) (records st)"

text \<open>
  Modelled from the spec: the chunk set of one document, as a reader of the Vector Store
  (not in the sources) sees it.
\<close>

definition chunks_of :: "string \<Rightarrow> vector_store \<Rightarrow> chunk list" where
  "chunks_of d st = filter (\<lambda>c. document_id c = d) (visible st)"

text \<open>
  Modelled from the spec: the versioned write behind \<^verbatim>\<open>upsert_chunks\<close> of the Vector
  Store (not in the sources): write the new chunks under a new version tag, then flip the
  pointer, then delete the old version. Each step is one write to the store, and a reader
  may run between any two of them.
\<close>

datatype write_step =
    WriteChunk chunk
  | FlipPointer string nat
  | DeleteOld string nat

text \<open>
  Modelled from the spec: the effect of one step of the versioned write on the records and
  the pointers of the Vector Store (not in the sources).
\<close>

fun apply_write :: "vector_store \<Rightarrow> write_step \<Rightarrow> vector_store" where
  "apply_write st (WriteChunk c) = st\<lparr>records := records st @ [c]\<rparr>"
| "apply_write st (FlipPointer d v) = st\<lparr>pointer := (pointer st)(d \<mapsto> v)\<rparr>"
| "apply_write st (DeleteOld d v) =
     st\<lparr>records := filter (\<lambda>c. \<not> (document_id c = d \<and> version_tag c \<noteq> v)) (records st)\<rparr>"

text \<open>
  Modelled from the spec: which document a step of a write to the Vector Store (not in the
  sources) concerns. Ingestions of different documents run concurrently, so the steps of
  one write may be interleaved with steps that concern other documents.
\<close>

fun concerns :: "string \<Rightarrow> write_step \<Rightarrow> bool" where
  "concerns d (WriteChunk c) = (document_id c = d)"
| "concerns d (FlipPointer d' v) = (d' = d)"
| "concerns d (DeleteOld d' v) = (d' = d)"

text \<open>
  Modelled from the spec: the part of the Vector Store (not in the sources) that belongs to
  one document, its records and its pointer.
\<close>

definition part_of :: "string \<Rightarrow> vector_store \<Rightarrow> chunk list \<times> nat option" where
  "part_of d st = (filter (\<lambda>c. document_id c = d) (records st), pointer st d)"

text \<open>
  Modelled from the spec: the new version tag of a versioned write of the Vector Store (not
  in the sources), above every tag the document has used.
\<close>

definition next_version :: "string \<Rightarrow> vector_store \<Rightarrow> nat" where
  "next_version d st =
     Suc (foldr max (map version_tag (filter (\<lambda>c. document_id c = d) (records st)))
            (case pointer st d of None \<Rightarrow> 0 | Some v \<Rightarrow> v))"

text \<open>
  Modelled from the spec: the chunk records of one ingestion (the Ingestion Pipeline is not
  in the sources). The chunks come with their vectors, in order; the ordinal is the
  position.
\<close>

definition new_chunks :: "string \<Rightarrow> nat \<Rightarrow> nat \<Rightarrow> (string \<times> real list) list \<Rightarrow> chunk list" where
  "new_chunks d now v cs =
     map (\<lambda>(i, (t, e)). \<lparr>document_id = d, ordinal = i, chunk_text = t, vector = e,
                          created = now, version_tag = v\<rparr>)
       (enumerate 0 cs)"

text \<open>
  Modelled from the spec: the steps of one \<^verbatim>\<open>upsert_chunks\<close> of the Vector Store (not in
  the sources), in the order the specification gives them.
\<close>

definition upsert_steps ::
  "string \<Rightarrow> nat \<Rightarrow> (string \<times> real list) list \<Rightarrow> vector_store \<Rightarrow> write_step list" where
  "upsert_steps d now cs st =
     (let v = next_version d st
      in map WriteChunk (new_chunks d now v cs) @ [FlipPointer d v, DeleteOld d v])"

text \<open>
  Modelled from the spec: \<^verbatim>\<open>upsert_chunks(document_id, chunks_with_vectors)\<close> of the
  Vector Store (not in the sources), run to its end at time \<open>now\<close>.
\<close>

definition upsert_chunks ::
  "string \<Rightarrow> nat \<Rightarrow> (string \<times> real list) list \<Rightarrow> vector_store \<Rightarrow> vector_store" where
  "upsert_chunks d now cs st = foldl apply_write st (upsert_steps d now cs st)"

text \<open>
  Modelled from the spec: re-ingesting a document any number of times (the Ingestion
  Pipeline is not in the sources), each time with its upload time and its chunks.
\<close>

definition reingest ::
  "string \<Rightarrow> (nat \<times> (string \<times> real list) list) list \<Rightarrow> vector_store \<Rightarrow> vector_store" where
  "reingest d inputs st = foldl (\<lambda>st' (now, cs). upsert_chunks d now cs st') st inputs"

text \<open>
  Modelled from the spec: the inner product behind the similarity metric of the Vector
  Store (not in the sources), for two vectors of the same dimension.
\<close>

definition dot :: "real list \<Rightarrow> real list \<Rightarrow> real" where
  "dot u v = sum_list (map2 (*) u v)"

text \<open>
  Modelled from the spec: the cosine similarity of the Vector Store (not in the sources).
  The specification does not say what the score of a zero vector is; here it is 0.
\<close>

definition cosine :: "real list \<Rightarrow> real list \<Rightarrow> real" where
  "cosine u v = dot u v / (sqrt (dot u u) * sqrt (dot v v))"

text \<open>
  Modelled from the spec: one entry of a Retrieval Result (the Retrieval Engine is not in
  the sources), a chunk with its similarity score; the chunk names its document.
\<close>

record retrieval_result =
  res_chunk :: chunk
  res_score :: real

text \<open>
  Modelled from the spec: the order of the results of the Vector Store (not in the
  sources): descending by score, ties broken by earlier ingestion timestamp, then by
  document id, then by ordinal. The key is compared lexicographically.
\<close>

definition rank :: "retrieval_result \<Rightarrow> real \<times> nat \<times> string \<times> nat" where
  "rank r = (- res_score r, created (res_chunk r), document_id (res_chunk r),
             ordinal (res_chunk r))"

text \<open>
  Modelled from the spec: \<^verbatim>\<open>query(vector, top_k, similarity_threshold)\<close> of the Vector
  Store (not in the sources). The score of every stored chunk a reader sees; those that
  meet or exceed the threshold; in the order of \<open>rank\<close>; the first \<open>top_k\<close>.
\<close>

definition query :: "vector_store \<Rightarrow> real list \<Rightarrow> nat \<Rightarrow> real \<Rightarrow> retrieval_result list" where
  "query st qv top_k similarity_threshold =
     take top_k
       (sort_key rank
          (filter (\<lambda>r. similarity_threshold \<le> res_score r)
             (map (\<lambda>c. \<lparr>res_chunk = c, res_score = cosine qv (vector c)\<rparr>) (visible st))))"

text \<open>
  Modelled from the spec: \<^verbatim>\<open>retrieve(query_text, top_k, threshold)\<close> of the Retrieval
  Engine (not in the sources): embed the query, query the store. The Embedding Client is a
  remote model; \<open>embed_text\<close> is its \<^verbatim>\<open>embed\<close>, the answer after the retries, a
  vector or the error.
\<close>

definition retrieve ::
  "(string \<Rightarrow> error_kind + real list) \<Rightarrow> vector_store \<Rightarrow> string \<Rightarrow> nat \<Rightarrow> real \<Rightarrow>
   error_kind + retrieval_result list" where
  "retrieve embed_text st query_text top_k threshold =
     (case embed_text query_text of
        Inl e \<Rightarrow> Inl e
      | Inr qv \<Rightarrow> Inr (query st qv top_k threshold))"

section \<open>Concrete pages and stores\<close>

text \<open>
  A page loaded from the blank document, and the same page after the user has typed a
  question and sent it: the chat then holds the question (element 1) and the typing
  indicator (element 2), and the request is on its way.
\<close>

definition demo_page :: page where
  "demo_page = page_load ''0.4fzyo82mvyr'' blank_page"

definition demo_asked :: page where
  "demo_asked = run demo_page [EditInput ''How long do refunds take?'' 24, ClickSend]"

text \<open>The loaded page with the upload dialogue open and \<open>faq.pdf\<close> selected.\<close>

definition demo_selected :: page where
  "demo_selected = run demo_page [ClickUpload, ChangeFile (Some \<lparr>file_name = ''faq.pdf''\<rparr>)]"

text \<open>
  A store with nothing in it; one document ingested twice into it, first with one chunk,
  then with three; and the first steps of a write to that document interleaved with the
  first steps of a write to another.
\<close>

definition empty_store :: vector_store where
  "empty_store = \<lparr>records = [], pointer = (\<lambda>d. None)\<rparr>"

definition demo_inputs :: "(nat \<times> (string \<times> real list) list) list" where
  "demo_inputs =
     [(1, [(''Refunds take 9 days.'', [0, 1])]),
      (2, [(''Refunds are processed within 5 business days.'', [1, 0]),
           (''Shipping is free.'', [0, 1]),
           (''We never refund.'', [- 1, 0])])]"

definition demo_interleaving :: "write_step list" where
  "demo_interleaving =
     [WriteChunk \<lparr>document_id = ''faq'', ordinal = 0, chunk_text = ''Refunds take 9 days.'',
                  vector = [0, 1], created = 1, version_tag = 1\<rparr>,
      WriteChunk \<lparr>document_id = ''terms'', ordinal = 0, chunk_text = ''Terms of service.'',
                  vector = [1, 1], created = 1, version_tag = 1\<rparr>,
      FlipPointer ''faq'' 1,
      FlipPointer ''terms'' 1]"

definition demo_store :: vector_store where
  "demo_store = reingest ''faq'' demo_inputs empty_store"

section \<open>Properties of the Vector Store and the Retrieval Engine\<close>

subsection \<open>Ranking and thresholding\<close>

lemma rank_le_score:
  "rank a \<le> rank b \<Longrightarrow> res_score b \<le> res_score a"
  by (auto simp: rank_def less_eq_prod_def)

lemma query_sorted_by_rank: "sorted (map rank (query st qv top_k th))"
proof -
  have "sorted (map rank (sort_key rank xs))" for xs :: "retrieval_result list"
    by (rule sorted_sort_key)
  then show ?thesis
    unfolding query_def by (simp add: take_map [symmetric] sorted_wrt_take)
qed

lemma query_descending:
  "sorted_wrt (\<lambda>a b. res_score b \<le> res_score a) (query st qv top_k th)"
proof -
  have "sorted_wrt (\<lambda>a b. rank a \<le> rank b) (query st qv top_k th)"
    using query_sorted_by_rank [of st qv top_k th] by (simp add: sorted_map)
  then show ?thesis
    by (rule sorted_wrt_mono_rel [rotated]) (simp add: rank_le_score)
qed

lemma query_members:
  assumes "r \<in> set (query st qv top_k th)"
  shows "th \<le> res_score r \<and> res_chunk r \<in> set (visible st)
         \<and> res_score r = cosine qv (vector (res_chunk r))"
proof -
  from assms have "r \<in> set (sort_key rank
          (filter (\<lambda>r. th \<le> res_score r)
             (map (\<lambda>c. \<lparr>res_chunk = c, res_score = cosine qv (vector c)\<rparr>) (visible st))))"
    unfolding query_def by (rule in_set_takeD)
  then show ?thesis by auto
qed

subsection \<open>The versioned write\<close>

lemma foldr_max_ge_base: "b \<le> foldr max xs (b::nat)"
  by (induction xs) auto

lemma foldr_max_ge_elem: "x \<in> set xs \<Longrightarrow> x \<le> foldr max xs (b::nat)"
  by (induction xs) auto

lemma record_below_next_version:
  "c \<in> set (records st) \<Longrightarrow> document_id c = d \<Longrightarrow> version_tag c < next_version d st"
  unfolding next_version_def
  by (intro le_imp_less_Suc foldr_max_ge_elem) auto

lemma pointer_below_next_version:
  "pointer st d = Some v \<Longrightarrow> v < next_version d st"
  unfolding next_version_def
  using foldr_max_ge_base [of v] by (simp add: le_imp_less_Suc)

lemma new_chunks_tagged:
  "c \<in> set (new_chunks d now v cs) \<Longrightarrow> document_id c = d \<and> version_tag c = v"
  by (auto simp: new_chunks_def)

lemma new_chunks_content:
  "map (\<lambda>c. (chunk_text c, vector c)) (new_chunks d now v cs) = cs"
  by (simp add: new_chunks_def comp_def case_prod_unfold map_snd_enumerate)

lemma new_chunks_ordinals:
  "map ordinal (new_chunks d now v cs) = [0..<length cs]"
  by (simp add: new_chunks_def comp_def case_prod_unfold map_fst_enumerate)

lemma foldl_WriteChunk:
  "foldl apply_write st (map WriteChunk cs) = st\<lparr>records := records st @ cs\<rparr>"
  by (induction cs arbitrary: st) simp_all

lemma filter_none: "(\<And>x. x \<in> set xs \<Longrightarrow> \<not> P x) \<Longrightarrow> filter P xs = []"
  by (induction xs) auto

lemma filter_all: "(\<And>x. x \<in> set xs \<Longrightarrow> P x) \<Longrightarrow> filter P xs = xs"
  by (induction xs) auto

lemma chunks_of_alt:
  "chunks_of d st =
   filter (\<lambda>c. document_id c = d \<and> pointer st d = Some (version_tag c)) (records st)"
  unfolding chunks_of_def visible_def filter_filter
  by (rule filter_cong) auto

text \<open>While the new chunks are being written, readers still see the old set.\<close>

lemma chunks_of_while_writing:
  assumes "set ws \<subseteq> set (new_chunks d now (next_version d st) cs)"
  shows "chunks_of d' (st\<lparr>records := records st @ ws\<rparr>) = chunks_of d' st"
proof -
  have "\<not> (document_id c = d' \<and> pointer st d' = Some (version_tag c))" if "c \<in> set ws" for c
  proof -
    from that assms have "document_id c = d" "version_tag c = next_version d st"
      using new_chunks_tagged by blast+
    then show ?thesis using pointer_below_next_version [of st d "next_version d st"] by auto
  qed
  then show ?thesis by (simp add: chunks_of_alt filter_empty_conv)
qed

text \<open>Once the pointer is flipped, readers see the new set, before and after the deletion.\<close>

lemma chunks_of_flipped:
  "chunks_of d (st\<lparr>records := records st @ new_chunks d now (next_version d st) cs,
                  pointer := (pointer st)(d \<mapsto> next_version d st)\<rparr>) =
   new_chunks d now (next_version d st) cs"
proof -
  have "\<not> (document_id c = d \<and> next_version d st = version_tag c)"
    if "c \<in> set (records st)" for c
    using record_below_next_version [OF that, of d] by auto
  moreover have "document_id c = d \<and> next_version d st = version_tag c"
    if "c \<in> set (new_chunks d now (next_version d st) cs)" for c
    using new_chunks_tagged [OF that] by simp
  ultimately show ?thesis
    by (simp add: chunks_of_alt filter_empty_conv filter_id_conv)
qed

lemma chunks_of_flipped_other:
  assumes "d' \<noteq> d"
  shows "chunks_of d' (st\<lparr>records := records st @ new_chunks d now (next_version d st) cs,
                  pointer := (pointer st)(d \<mapsto> next_version d st)\<rparr>) =
         chunks_of d' st"
proof -
  have "\<not> (document_id c = d' \<and> pointer st d' = Some (version_tag c))"
    if "c \<in> set (new_chunks d now (next_version d st) cs)" for c
    using new_chunks_tagged [OF that] assms by simp
  then show ?thesis
    using assms by (simp add: chunks_of_alt filter_empty_conv)
qed

lemma DeleteOld_after_flip:
  fixes st d now cs
  defines "v \<equiv> next_version d st"
  defines "new \<equiv> new_chunks d now v cs"
  shows "filter (\<lambda>c. \<not> (document_id c = d \<and> version_tag c \<noteq> v)) (records st @ new) =
         filter (\<lambda>c. document_id c \<noteq> d) (records st) @ new"
proof -
  have "(\<not> (document_id c = d \<and> version_tag c \<noteq> v)) = (document_id c \<noteq> d)"
    if "c \<in> set (records st)" for c
    using record_below_next_version [OF that, of d] unfolding v_def by auto
  then have "filter (\<lambda>c. \<not> (document_id c = d \<and> version_tag c \<noteq> v)) (records st) =
             filter (\<lambda>c. document_id c \<noteq> d) (records st)"
    by (intro filter_cong) auto
  moreover have "filter (\<lambda>c. \<not> (document_id c = d \<and> version_tag c \<noteq> v)) new = new"
    using new_chunks_tagged unfolding new_def by (intro filter_all) blast
  ultimately show ?thesis by simp
qed

lemma upsert_chunks_result:
  fixes st d now cs
  defines "v \<equiv> next_version d st"
  defines "new \<equiv> new_chunks d now v cs"
  shows "upsert_chunks d now cs st =
         \<lparr>records = filter (\<lambda>c. document_id c \<noteq> d) (records st) @ new,
          pointer = (pointer st)(d \<mapsto> v)\<rparr>"
  unfolding upsert_chunks_def upsert_steps_def Let_def
  using DeleteOld_after_flip [of d st now cs]
  by (simp add: foldl_WriteChunk v_def new_def)

lemma upsert_chunks_records_of:
  "filter (\<lambda>c. document_id c = d) (records (upsert_chunks d now cs st)) =
   new_chunks d now (next_version d st) cs"
proof -
  have "filter (\<lambda>c. document_id c = d) (new_chunks d now (next_version d st) cs) =
        new_chunks d now (next_version d st) cs"
    using new_chunks_tagged by (intro filter_all) blast
  then show ?thesis
    by (simp add: upsert_chunks_result)
qed

lemma upsert_chunks_chunks_of:
  "chunks_of d (upsert_chunks d now cs st) = new_chunks d now (next_version d st) cs"
proof -
  have "document_id c = d \<and> next_version d st = version_tag c"
    if "c \<in> set (new_chunks d now (next_version d st) cs)" for c
    using new_chunks_tagged [OF that] by simp
  then show ?thesis
    by (simp add: chunks_of_alt upsert_chunks_result filter_empty_conv filter_id_conv)
qed

lemma upsert_chunks_other:
  assumes "d' \<noteq> d"
  shows "chunks_of d' (upsert_chunks d now cs st) = chunks_of d' st"
proof -
  have "\<not> (document_id c = d' \<and> pointer st d' = Some (version_tag c))"
    if "c \<in> set (new_chunks d now (next_version d st) cs)" for c
    using new_chunks_tagged [OF that] assms by simp
  moreover have
    "filter (\<lambda>c. document_id c = d' \<and> pointer st d' = Some (version_tag c))
       (filter (\<lambda>c. document_id c \<noteq> d) (records st)) =
     filter (\<lambda>c. document_id c = d' \<and> pointer st d' = Some (version_tag c)) (records st)"
    unfolding filter_filter using assms by (intro filter_cong) auto
  ultimately show ?thesis
    using assms by (simp add: chunks_of_alt upsert_chunks_result filter_empty_conv)
qed

text \<open>Every prefix of the versioned write shows the old set or the new one.\<close>

lemma upsert_prefix_state:
  fixes st d now cs n
  defines "v \<equiv> next_version d st"
  defines "new \<equiv> new_chunks d now v cs"
  defines "mid \<equiv> foldl apply_write st (take n (upsert_steps d now cs st))"
  shows "(\<exists>ws. set ws \<subseteq> set new \<and> mid = st\<lparr>records := records st @ ws\<rparr>)
       \<or> mid = st\<lparr>records := records st @ new, pointer := (pointer st)(d \<mapsto> v)\<rparr>
       \<or> mid = upsert_chunks d now cs st"
proof -
  consider "n \<le> length new" | "n = Suc (length new)" | "Suc (Suc (length new)) \<le> n"
    by linarith
  then show ?thesis
  proof cases
    case 1
    then have "take n (upsert_steps d now cs st) = map WriteChunk (take n new)"
      by (simp add: upsert_steps_def Let_def v_def new_def take_map)
    then have "mid = st\<lparr>records := records st @ take n new\<rparr>"
      by (simp add: mid_def foldl_WriteChunk)
    moreover have "set (take n new) \<subseteq> set new" by (rule set_take_subset)
    ultimately show ?thesis by blast
  next
    case 2
    then have "take n (upsert_steps d now cs st) = map WriteChunk new @ [FlipPointer d v]"
      by (simp add: upsert_steps_def Let_def v_def new_def)
    then have "mid = st\<lparr>records := records st @ new, pointer := (pointer st)(d \<mapsto> v)\<rparr>"
      by (simp add: mid_def foldl_WriteChunk)
    then show ?thesis by blast
  next
    case 3
    then have "take n (upsert_steps d now cs st) = upsert_steps d now cs st"
      by (simp add: upsert_steps_def Let_def v_def new_def)
    then show ?thesis by (simp add: mid_def upsert_chunks_def)
  qed
qed

lemma upsert_prefix_view:
  "chunks_of d (foldl apply_write st (take n (upsert_steps d now cs st))) = chunks_of d st
   \<or> chunks_of d (foldl apply_write st (take n (upsert_steps d now cs st))) =
       new_chunks d now (next_version d st) cs"
  using upsert_prefix_state [where n = n and d = d and now = now and cs = cs and st = st]
    chunks_of_while_writing [where d = d and now = now and st = st and cs = cs and d' = d]
    chunks_of_flipped [where d = d and st = st and now = now and cs = cs]
    upsert_chunks_chunks_of [where d = d and now = now and cs = cs and st = st]
  by metis

lemma upsert_prefix_other:
  "d' \<noteq> d \<Longrightarrow>
   chunks_of d' (foldl apply_write st (take n (upsert_steps d now cs st))) = chunks_of d' st"
  using upsert_prefix_state [where n = n and d = d and now = now and cs = cs and st = st]
    chunks_of_while_writing [where d = d and now = now and st = st and cs = cs and d' = d']
    chunks_of_flipped_other [where d = d and st = st and now = now and cs = cs and d' = d']
    upsert_chunks_other [where d = d and now = now and cs = cs and st = st and d' = d']
  by metis

text \<open>
  Steps that concern other documents leave the part of the document alone, and a step
  that concerns the document acts on its part only. So under any interleaving the part of
  the document is what its own steps make of it.
\<close>

lemma chunks_of_part:
  "chunks_of d st = filter (\<lambda>c. snd (part_of d st) = Some (version_tag c)) (fst (part_of d st))"
  unfolding chunks_of_alt part_of_def by (simp add: conj_commute)

lemma apply_write_foreign:
  "\<not> concerns d w \<Longrightarrow> part_of d (apply_write st w) = part_of d st"
proof (cases w)
  case (DeleteOld d' v)
  assume "\<not> concerns d w"
  with DeleteOld have "d' \<noteq> d" by simp
  then have "filter (\<lambda>c. document_id c = d)
               (filter (\<lambda>c. \<not> (document_id c = d' \<and> version_tag c \<noteq> v)) (records st)) =
             filter (\<lambda>c. document_id c = d) (records st)"
    unfolding filter_filter by (intro filter_cong) auto
  with DeleteOld show ?thesis by (simp add: part_of_def)
qed (auto simp: part_of_def)

lemma filter_swap: "filter P (filter Q xs) = filter Q (filter P xs)"
  by (induction xs) auto

lemma apply_write_own:
  assumes "part_of d st = part_of d st'"
  shows "part_of d (apply_write st w) = part_of d (apply_write st' w)"
proof (cases w)
  case (DeleteOld d' v)
  let ?keep = "\<lambda>c. \<not> (document_id c = d' \<and> version_tag c \<noteq> v)"
  from assms have recs: "filter (\<lambda>c. document_id c = d) (records st) =
                         filter (\<lambda>c. document_id c = d) (records st')"
    and ptr: "pointer st d = pointer st' d"
    by (simp_all add: part_of_def)
  have "filter (\<lambda>c. document_id c = d) (filter ?keep (records st)) =
        filter ?keep (filter (\<lambda>c. document_id c = d) (records st))"
    by (rule filter_swap)
  also have "\<dots> = filter ?keep (filter (\<lambda>c. document_id c = d) (records st'))"
    by (simp only: recs)
  also have "\<dots> = filter (\<lambda>c. document_id c = d) (filter ?keep (records st'))"
    by (rule filter_swap)
  finally show ?thesis
    using DeleteOld ptr by (simp add: part_of_def del: filter_filter)
qed (use assms in \<open>auto simp: part_of_def\<close>)

lemma interleaved_part:
  "part_of d (foldl apply_write st ws) =
   part_of d (foldl apply_write st (filter (concerns d) ws))"
proof (induction ws rule: rev_induct)
  case Nil
  show ?case by simp
next
  case (snoc w ws)
  show ?case
  proof (cases "concerns d w")
    case True
    with apply_write_own [OF snoc, of w] show ?thesis by simp
  next
    case False
    with apply_write_foreign [of d w "foldl apply_write st ws"] snoc show ?thesis by simp
  qed
qed

lemma upsert_steps_own: "filter (concerns d) (upsert_steps d now cs st) = upsert_steps d now cs st"
proof -
  have "\<forall>c \<in> set (new_chunks d now (next_version d st) cs). document_id c = d"
    using new_chunks_tagged by blast
  then show ?thesis
    by (simp add: upsert_steps_def Let_def filter_map comp_def filter_id_conv)
qed

lemma upsert_interleaved_view:
  assumes "filter (concerns d) ws = take n (upsert_steps d now cs st)"
  shows "chunks_of d (foldl apply_write st ws) = chunks_of d st
         \<or> chunks_of d (foldl apply_write st ws) = new_chunks d now (next_version d st) cs"
proof -
  have "part_of d (foldl apply_write st ws) =
        part_of d (foldl apply_write st (take n (upsert_steps d now cs st)))"
    using interleaved_part [of d st ws] assms by simp
  then have "chunks_of d (foldl apply_write st ws) =
             chunks_of d (foldl apply_write st (take n (upsert_steps d now cs st)))"
    by (simp add: chunks_of_part)
  with upsert_prefix_view [of d st n now cs] show ?thesis by simp
qed

lemma reingest_last:
  "inputs \<noteq> [] \<Longrightarrow>
   \<exists>st'. reingest d inputs st = upsert_chunks d (fst (last inputs)) (snd (last inputs)) st'"
  by (induction inputs rule: rev_induct) (auto simp: reingest_def case_prod_unfold)

lemma demo_records:
  "records demo_store =
     [\<lparr>document_id = ''faq'', ordinal = 0,
       chunk_text = ''Refunds are processed within 5 business days.'', vector = [1, 0],
       created = 2, version_tag = 2\<rparr>,
      \<lparr>document_id = ''faq'', ordinal = 1, chunk_text = ''Shipping is free.'', vector = [0, 1],
       created = 2, version_tag = 2\<rparr>,
      \<lparr>document_id = ''faq'', ordinal = 2, chunk_text = ''We never refund.'', vector = [- 1, 0],
       created = 2, version_tag = 2\<rparr>]"
  by (simp add: demo_store_def demo_inputs_def reingest_def empty_store_def upsert_chunks_def
      upsert_steps_def next_version_def new_chunks_def Let_def)

lemma demo_pointer: "pointer demo_store ''faq'' = Some 2"
  by (simp add: demo_store_def demo_inputs_def reingest_def empty_store_def upsert_chunks_def
      upsert_steps_def next_version_def new_chunks_def Let_def)

lemma demo_query:
  "query demo_store [1, 0] 5 0 =
     [\<lparr>res_chunk = \<lparr>document_id = ''faq'', ordinal = 0,
       chunk_text = ''Refunds are processed within 5 business days.'', vector = [1, 0],
       created = 2, version_tag = 2\<rparr>, res_score = 1\<rparr>,
      \<lparr>res_chunk = \<lparr>document_id = ''faq'', ordinal = 1, chunk_text = ''Shipping is free.'', vector = [0, 1],
       created = 2, version_tag = 2\<rparr>, res_score = 0\<rparr>]"
  by (simp add: query_def visible_def demo_records demo_pointer cosine_def dot_def rank_def
       less_eq_prod_def)

subsection \<open>Retrieval returns what meets the threshold, best first\<close>

text \<open>
  Claim C1. Every result of \<open>query\<close>, and so of \<open>retrieve\<close> when the embedding
  succeeds, has a score that meets or exceeds the similarity threshold, the score being
  the cosine similarity of the query vector and the vector of a chunk that readers of the
  store see; the results are ordered non-increasing by score, and there are at most
  \<open>top_k\<close> of them.
\<close>

theorem query_meets_threshold_sorted:
  "(\<forall>r \<in> set (query st qv top_k th). th \<le> res_score r
       \<and> res_score r = cosine qv (vector (res_chunk r))
       \<and> res_chunk r \<in> set (visible st))
   \<and> sorted_wrt (\<lambda>a b. res_score b \<le> res_score a) (query st qv top_k th)
   \<and> length (query st qv top_k th) \<le> top_k
   \<and> (\<forall>rs. retrieve embed_text st q top_k th = Inr rs \<longrightarrow>
         (\<forall>r \<in> set rs. th \<le> res_score r)
         \<and> sorted_wrt (\<lambda>a b. res_score b \<le> res_score a) rs)"
proof (intro conjI allI impI ballI)
  fix r assume "r \<in> set (query st qv top_k th)"
  then show "th \<le> res_score r" "res_score r = cosine qv (vector (res_chunk r))"
    "res_chunk r \<in> set (visible st)"
    using query_members by blast+
next
  show "sorted_wrt (\<lambda>a b. res_score b \<le> res_score a) (query st qv top_k th)"
    by (rule query_descending)
next
  show "length (query st qv top_k th) \<le> top_k"
    unfolding query_def by simp
next
  fix rs r
  assume "retrieve embed_text st q top_k th = Inr rs" and "r \<in> set rs"
  then obtain v where "rs = query st v top_k th"
    by (auto simp: retrieve_def split: sum.splits)
  with \<open>r \<in> set rs\<close> show "th \<le> res_score r"
    using query_members by blast
next
  fix rs
  assume "retrieve embed_text st q top_k th = Inr rs"
  then obtain v where "rs = query st v top_k th"
    by (auto simp: retrieve_def split: sum.splits)
  then show "sorted_wrt (\<lambda>a b. res_score b \<le> res_score a) rs"
    by (simp add: query_descending)
qed

text \<open>
  On the store of the example, the query vector \<open>[1, 0]\<close> with threshold 0 finds the
  refund chunk (score 1) before the shipping chunk (score 0), and leaves out the chunk
  of score -1.
\<close>

theorem query_meets_threshold_sorted_witness:
  "retrieve (\<lambda>t. Inr [1, 0]) demo_store ''How long do refunds take?'' 5 0 =
     Inr (query demo_store [1, 0] 5 0)
   \<and> map res_score (query demo_store [1, 0] 5 0) = [1, 0]
   \<and> map (ordinal \<circ> res_chunk) (query demo_store [1, 0] 5 0) = [0, 1]
   \<and> sorted_wrt (\<lambda>a b. res_score b \<le> res_score a) (query demo_store [1, 0] 5 0)
   \<and> 0 \<le> res_score (hd (query demo_store [1, 0] 5 0))"
  using query_meets_threshold_sorted
    [of demo_store "[1, 0]" 5 0 "\<lambda>t. Inr [1, 0]" "''How long do refunds take?''"]
  by (simp add: retrieve_def demo_query)

subsection \<open>Re-ingestion replaces the chunk set\<close>

text \<open>
  Claim C2. For every document \<open>d\<close>: at every point of the versioned write of
  \<open>upsert_chunks\<close>, alone or interleaved in any way with writes that concern other
  documents, a reader of \<open>d\<close> sees the whole old chunk set or the whole new one, never
  a mix; when the write is done the store holds, for \<open>d\<close>, the new chunks and
  nothing else, and they carry the texts and vectors of the input; and after re-ingesting
  \<open>d\<close> any number of times the one chunk set of \<open>d\<close> is that of the latest input.
\<close>

theorem upsert_chunks_atomic_idempotent:
  "(\<forall>n. chunks_of d (foldl apply_write st (take n (upsert_steps d now cs st))) = chunks_of d st
       \<or> chunks_of d (foldl apply_write st (take n (upsert_steps d now cs st))) =
           new_chunks d now (next_version d st) cs)
   \<and> (\<forall>ws n. filter (concerns d) ws = take n (upsert_steps d now cs st) \<longrightarrow>
         chunks_of d (foldl apply_write st ws) = chunks_of d st
         \<or> chunks_of d (foldl apply_write st ws) = new_chunks d now (next_version d st) cs)
   \<and> chunks_of d (upsert_chunks d now cs st) = new_chunks d now (next_version d st) cs
   \<and> filter (\<lambda>c. document_id c = d) (records (upsert_chunks d now cs st)) =
       chunks_of d (upsert_chunks d now cs st)
   \<and> map (\<lambda>c. (chunk_text c, vector c)) (chunks_of d (upsert_chunks d now cs st)) = cs
   \<and> (inputs \<noteq> [] \<longrightarrow>
         map (\<lambda>c. (chunk_text c, vector c)) (chunks_of d (reingest d inputs st)) =
           snd (last inputs)
         \<and> filter (\<lambda>c. document_id c = d) (records (reingest d inputs st)) =
             chunks_of d (reingest d inputs st))"
proof (intro conjI allI impI)
  fix n
  show "chunks_of d (foldl apply_write st (take n (upsert_steps d now cs st))) = chunks_of d st
       \<or> chunks_of d (foldl apply_write st (take n (upsert_steps d now cs st))) =
           new_chunks d now (next_version d st) cs"
    by (rule upsert_prefix_view)
next
  fix ws n
  assume "filter (concerns d) ws = take n (upsert_steps d now cs st)"
  then show "chunks_of d (foldl apply_write st ws) = chunks_of d st
         \<or> chunks_of d (foldl apply_write st ws) = new_chunks d now (next_version d st) cs"
    by (rule upsert_interleaved_view)
next
  show "chunks_of d (upsert_chunks d now cs st) = new_chunks d now (next_version d st) cs"
    by (rule upsert_chunks_chunks_of)
next
  show "filter (\<lambda>c. document_id c = d) (records (upsert_chunks d now cs st)) =
       chunks_of d (upsert_chunks d now cs st)"
    by (simp only: upsert_chunks_records_of upsert_chunks_chunks_of)
next
  show "map (\<lambda>c. (chunk_text c, vector c)) (chunks_of d (upsert_chunks d now cs st)) = cs"
    by (simp only: upsert_chunks_chunks_of new_chunks_content)
next
  assume "inputs \<noteq> []"
  then obtain st' where
    last: "reingest d inputs st = upsert_chunks d (fst (last inputs)) (snd (last inputs)) st'"
    using reingest_last by blast
  show "map (\<lambda>c. (chunk_text c, vector c)) (chunks_of d (reingest d inputs st)) =
           snd (last inputs)"
    by (simp only: last upsert_chunks_chunks_of new_chunks_content)
  show "filter (\<lambda>c. document_id c = d) (records (reingest d inputs st)) =
             chunks_of d (reingest d inputs st)"
    by (simp only: last upsert_chunks_records_of upsert_chunks_chunks_of)
qed

text \<open>
  The store of the example: one document ingested twice, first with one chunk, then with
  three. Its readers see the three chunks of the second input, and no record of the
  first is left. And a write of one chunk to the empty store, interleaved with a write to
  another document: after the pointer is flipped, readers see the new chunk.
\<close>

theorem upsert_chunks_atomic_idempotent_witness:
  "demo_inputs \<noteq> []
   \<and> map (\<lambda>c. (chunk_text c, vector c)) (chunks_of ''faq'' (reingest ''faq'' demo_inputs empty_store)) =
       [(''Refunds are processed within 5 business days.'', [1, 0]),
        (''Shipping is free.'', [0, 1]),
        (''We never refund.'', [- 1, 0])]
   \<and> length (records (reingest ''faq'' demo_inputs empty_store)) = 3
   \<and> filter (concerns ''faq'') demo_interleaving =
       take 2 (upsert_steps ''faq'' 1 [(''Refunds take 9 days.'', [0, 1])] empty_store)
   \<and> map chunk_text (chunks_of ''faq'' (foldl apply_write empty_store demo_interleaving)) =
       [''Refunds take 9 days.'']"
proof -
  have ne: "demo_inputs \<noteq> []" by (simp add: demo_inputs_def)
  have "snd (last demo_inputs) =
       [(''Refunds are processed within 5 business days.'', [1, 0]),
        (''Shipping is free.'', [0, 1]),
        (''We never refund.'', [- 1, 0])]"
    by (simp add: demo_inputs_def)
  moreover have "length (records (reingest ''faq'' demo_inputs empty_store)) = 3"
    using demo_records by (simp add: demo_store_def)
  moreover have il: "filter (concerns ''faq'') demo_interleaving =
       take 2 (upsert_steps ''faq'' 1 [(''Refunds take 9 days.'', [0, 1])] empty_store)"
    by (simp add: demo_interleaving_def upsert_steps_def next_version_def new_chunks_def
        empty_store_def Let_def)
  moreover have "chunks_of ''faq'' empty_store = []"
    by (simp add: chunks_of_def visible_def empty_store_def)
  moreover have "map chunk_text
       (new_chunks ''faq'' 1 (next_version ''faq'' empty_store) [(''Refunds take 9 days.'', [0, 1])]) =
       [''Refunds take 9 days.'']"
    by (simp add: new_chunks_def)
  moreover have "chunks_of ''faq'' (foldl apply_write empty_store demo_interleaving) \<noteq> []"
    by (simp add: demo_interleaving_def chunks_of_def visible_def empty_store_def)
  ultimately show ?thesis
    using ne upsert_chunks_atomic_idempotent [of "''faq''" empty_store 0 "[]" demo_inputs]
      upsert_chunks_atomic_idempotent
        [of "''faq''" empty_store 1 "[(''Refunds take 9 days.'', [0, 1])]" "[]"]
    by (metis (no_types, lifting))
qed

section \<open>Properties of the chat client\<close>

subsection \<open>Citation markers\<close>

lemma not_digit_bracket: "\<not> is_digit CHR '']''"
  by (simp add: is_digit_def)

lemma match_marker_intro:
  assumes "ds \<noteq> []" and "\<forall>d \<in> set ds. is_digit d"
  shows "match_marker (marker_open @ ds @ CHR '']'' # rest) = Some (ds, rest)"
proof -
  have "takeWhile is_digit (ds @ CHR '']'' # rest) = ds"
    using assms(2) not_digit_bracket by (simp add: takeWhile_append2)
  moreover have "dropWhile is_digit (ds @ CHR '']'' # rest) = CHR '']'' # rest"
    using assms(2) not_digit_bracket by (simp add: dropWhile_append2)
  ultimately show ?thesis
    using assms(1) by (simp add: match_marker_def Let_def del: dropWhile_eq_Nil_conv)
qed

lemma match_marker_elim:
  assumes "match_marker s = Some (ds, rest)"
  shows "s = marker_open @ ds @ CHR '']'' # rest \<and> ds \<noteq> [] \<and> (\<forall>d \<in> set ds. is_digit d)"
proof -
  let ?r = "drop (length marker_open) s"
  from assms have pre: "take (length marker_open) s = marker_open"
    and ds: "ds = takeWhile is_digit ?r" "ds \<noteq> []"
    and rest: "dropWhile is_digit ?r \<noteq> []" "hd (dropWhile is_digit ?r) = CHR '']''"
      "rest = tl (dropWhile is_digit ?r)"
    by (auto simp: match_marker_def Let_def split: if_splits)
  have "s = take (length marker_open) s @ ?r" by simp
  also have "?r = takeWhile is_digit ?r @ dropWhile is_digit ?r" by simp
  also have "dropWhile is_digit ?r = CHR '']'' # rest"
    using rest by (cases "dropWhile is_digit ?r") auto
  finally have "s = marker_open @ ds @ CHR '']'' # rest"
    using pre ds(1) by simp
  moreover have "\<forall>d \<in> set ds. is_digit d"
    unfolding ds(1) by (auto dest: set_takeWhileD)
  ultimately show ?thesis using ds(2) by blast
qed

lemma match_marker_needs_bracket:
  "c \<noteq> CHR ''['' \<Longrightarrow> match_marker (c # cs) = None"
  by (simp add: match_marker_def marker_open_def)

lemma replace_citations_no_bracket:
  "CHR ''['' \<notin> set p \<Longrightarrow> replace_citations (p @ s) = p @ replace_citations s"
  by (induction p) (auto simp: match_marker_needs_bracket)

lemma has_marker_no_bracket:
  "CHR ''['' \<notin> set p \<Longrightarrow> has_marker (p @ s) = has_marker s"
  by (induction p) (auto simp: match_marker_needs_bracket)

lemma digits_no_bracket: "\<forall>d \<in> set ds. is_digit d \<Longrightarrow> CHR ''['' \<notin> set ds"
  by (auto simp: is_digit_def)

lemma source_span_no_bracket:
  "\<forall>d \<in> set ds. is_digit d \<Longrightarrow> CHR ''['' \<notin> set (source_span ds)"
  using digits_no_bracket [of ds] by (simp add: source_span_def)

text \<open>What the replacement copies up to its first \<^verbatim>\<open><\<close> is copied from the input.\<close>

lemma replace_citations_copied:
  "replace_citations t = u @ w \<Longrightarrow> CHR ''<'' \<notin> set u \<Longrightarrow> \<exists>w'. t = u @ w'"
proof (induction t arbitrary: u w rule: replace_citations.induct)
  case 1
  then show ?case by simp
next
  case (2 c cs)
  show ?case
  proof (cases u)
    case Nil
    then show ?thesis by simp
  next
    case (Cons x u')
    show ?thesis
    proof (cases "match_marker (c # cs)")
      case None
      with "2.prems" Cons have "x = c" and "replace_citations cs = u' @ w" and "CHR ''<'' \<notin> set u'"
        by auto
      with "2.IH"(1) [OF None] obtain w' where "cs = u' @ w'" by blast
      with Cons \<open>x = c\<close> show ?thesis by simp
    next
      case (Some m)
      obtain ds rest where "m = (ds, rest)" by (cases m)
      with Some "2.prems" Cons have "x = CHR ''<''"
        by (simp add: source_span_def)
      with "2.prems"(2) Cons show ?thesis by simp
    qed
  qed
qed

lemma digits_no_lt: "\<forall>d \<in> set ds. is_digit d \<Longrightarrow> CHR ''<'' \<notin> set ds"
  by (auto simp: is_digit_def)

lemma replace_citations_keeps_no_match:
  assumes "match_marker (c # cs) = None"
  shows "match_marker (c # replace_citations cs) = None"
proof (rule ccontr)
  assume "match_marker (c # replace_citations cs) \<noteq> None"
  then obtain ds rest where m: "match_marker (c # replace_citations cs) = Some (ds, rest)"
    by auto
  from match_marker_elim [OF m]
  have eq: "c # replace_citations cs = marker_open @ ds @ CHR '']'' # rest"
    and ne: "ds \<noteq> []" and dig: "\<forall>d \<in> set ds. is_digit d"
    by simp_all
  from eq have c: "c = CHR ''[''"
    and r: "replace_citations cs = (''Document '' @ ds @ '']'') @ rest"
    by (simp_all add: marker_open_def)
  have "CHR ''<'' \<notin> set (''Document '' @ ds @ '']'')"
    using digits_no_lt [OF dig] by simp
  from replace_citations_copied [OF r this]
  obtain w' where "cs = (''Document '' @ ds @ '']'') @ w'" ..
  with c have "c # cs = marker_open @ ds @ CHR '']'' # w'"
    by (simp add: marker_open_def)
  with match_marker_intro [OF ne dig, of w'] assms show False by simp
qed

lemma replace_citations_no_marker: "\<not> has_marker (replace_citations s)"
proof (induction s rule: replace_citations.induct)
  case 1
  show ?case by simp
next
  case (2 c cs)
  show ?case
  proof (cases "match_marker (c # cs)")
    case None
    with "2.IH"(1) replace_citations_keeps_no_match [OF None] show ?thesis by simp
  next
    case (Some m)
    obtain ds rest where m: "m = (ds, rest)" by (cases m)
    from match_marker_elim [of "c # cs" ds rest] Some m
    have "\<forall>d \<in> set ds. is_digit d" by simp
    then have "has_marker (source_span ds @ replace_citations rest) =
               has_marker (replace_citations rest)"
      by (intro has_marker_no_bracket source_span_no_bracket)
    with "2.IH"(2) [OF Some m [symmetric]] Some m show ?thesis by simp
  qed
qed

lemma replace_citations_marker:
  assumes "CHR ''['' \<notin> set p" and "ds \<noteq> []" and "\<forall>d \<in> set ds. is_digit d"
  shows "replace_citations (p @ ''[Document '' @ ds @ '']'' @ q) =
         p @ source_span ds @ replace_citations q"
proof -
  obtain cs where cs: "marker_open @ ds @ CHR '']'' # q = CHR ''['' # cs"
    by (simp add: marker_open_def)
  with match_marker_intro [OF assms(2,3), of q]
  have "match_marker (CHR ''['' # cs) = Some (ds, q)" by simp
  then have "replace_citations (CHR ''['' # cs) = source_span ds @ replace_citations q"
    by simp
  with cs have "replace_citations (''[Document '' @ ds @ '']'' @ q) =
                source_span ds @ replace_citations q"
    by (simp add: marker_open_def)
  with replace_citations_no_bracket [OF assms(1)] show ?thesis by simp
qed

text \<open>
  The digits of the pattern are the ten characters \<open>0\<close> to \<open>9\<close>.
\<close>

lemma digit_codes:
  "char_of (48::nat) = CHR ''0''" "char_of (49::nat) = CHR ''1''" "char_of (50::nat) = CHR ''2''"
  "char_of (51::nat) = CHR ''3''" "char_of (52::nat) = CHR ''4''" "char_of (53::nat) = CHR ''5''"
  "char_of (54::nat) = CHR ''6''" "char_of (55::nat) = CHR ''7''" "char_of (56::nat) = CHR ''8''"
  "char_of (57::nat) = CHR ''9''"
  by code_simp+

lemma is_digit_set: "is_digit c = (c \<in> set ''0123456789'')"
proof
  assume "is_digit c"
  then have b: "48 \<le> (of_char c :: nat)" "(of_char c :: nat) \<le> 57"
    by (simp_all add: is_digit_def less_eq_char_def)
  define n where "n = (of_char c :: nat)"
  have c: "c = char_of n" by (simp add: n_def)
  from b have "n = 48 \<or> n = 49 \<or> n = 50 \<or> n = 51 \<or> n = 52 \<or> n = 53 \<or> n = 54 \<or> n = 55
      \<or> n = 56 \<or> n = 57"
    unfolding n_def by arith
  then show "c \<in> set ''0123456789''"
    unfolding c by (elim disjE) (simp_all only: digit_codes, simp_all)
next
  assume "c \<in> set ''0123456789''"
  then show "is_digit c"
    by (auto simp: is_digit_def less_eq_char_def)
qed

text \<open>
  A match that runs over an opening bracket lies before it: after its first character
  the matched text has no opening bracket.
\<close>

lemma match_marker_in_prefix:
  assumes "match_marker (u @ CHR ''['' # v) = Some (ds, rest)" and "u \<noteq> []"
  shows "match_marker u \<noteq> None"
proof -
  let ?w = "marker_open @ ds @ '']''"
  from match_marker_elim [OF assms(1)]
  have eq: "u @ CHR ''['' # v = ?w @ rest"
    and ne: "ds \<noteq> []" and dig: "\<forall>d \<in> set ds. is_digit d"
    by simp_all
  have inner: "CHR ''['' \<notin> set (''Document '' @ ds @ '']'')"
    using digits_no_bracket [OF dig] by simp
  from eq have "\<exists>us. u = ?w @ us \<and> us @ CHR ''['' # v = rest
                  \<or> u @ us = ?w \<and> CHR ''['' # v = us @ rest"
    by (rule append_eq_append_conv2 [THEN iffD1])
  then obtain us where
    "u = ?w @ us \<and> us @ CHR ''['' # v = rest \<or> u @ us = ?w \<and> CHR ''['' # v = us @ rest"
    by blast
  then show ?thesis
  proof
    assume "u = ?w @ us \<and> us @ CHR ''['' # v = rest"
    then have "u = marker_open @ ds @ CHR '']'' # us" by simp
    with match_marker_intro [OF ne dig, of us] show ?thesis by simp
  next
    assume a: "u @ us = ?w \<and> CHR ''['' # v = us @ rest"
    show ?thesis
    proof (cases us)
      case Nil
      with a have "u = marker_open @ ds @ CHR '']'' # []" by simp
      with match_marker_intro [OF ne dig, of "[]"] show ?thesis by simp
    next
      case (Cons x us')
      with a have x: "x = CHR ''[''" by simp
      from assms(2) obtain y u' where u: "u = y # u'" by (cases u) auto
      from a Cons x u have "u' @ CHR ''['' # us' = ''Document '' @ ds @ '']''"
        by (simp add: marker_open_def)
      then have "CHR ''['' \<in> set (''Document '' @ ds @ '']'')"
        by (metis in_set_conv_decomp)
      with inner show ?thesis by blast
    qed
  qed
qed

text \<open>A text with no marker is copied; the leftmost marker is where the first span goes.\<close>

lemma replace_citations_id: "\<not> has_marker s \<Longrightarrow> replace_citations s = s"
  by (induction s) (auto split: option.splits)

lemma replace_citations_leftmost:
  assumes "\<not> has_marker p" and "ds \<noteq> []" and "\<forall>d \<in> set ds. is_digit d"
  shows "replace_citations (p @ ''[Document '' @ ds @ '']'' @ q) =
         p @ source_span ds @ replace_citations q"
  using assms(1)
proof (induction p)
  case Nil
  from replace_citations_marker [OF _ assms(2,3), of "[]" q] show ?case by simp
next
  case (Cons c p)
  from Cons.prems have "\<not> (match_marker (c # p) \<noteq> None \<or> has_marker p)"
    by simp
  then have none: "match_marker (c # p) = None" and rest: "\<not> has_marker p"
    by blast+
  have "match_marker ((c # p) @ CHR ''['' # (''Document '' @ ds @ '']'' @ q)) = None"
  proof (rule ccontr)
    assume "match_marker ((c # p) @ CHR ''['' # (''Document '' @ ds @ '']'' @ q)) \<noteq> None"
    then obtain ds' rest' where
      "match_marker ((c # p) @ CHR ''['' # (''Document '' @ ds @ '']'' @ q)) = Some (ds', rest')"
      by auto
    from match_marker_in_prefix [OF this] none show False by simp
  qed
  then have "replace_citations (c # (p @ ''[Document '' @ ds @ '']'' @ q)) =
             c # replace_citations (p @ ''[Document '' @ ds @ '']'' @ q)"
    by simp
  with Cons.IH [OF rest] show ?case by simp
qed

lemma has_marker_append:
  assumes "ds \<noteq> []" and "\<forall>d \<in> set ds. is_digit d"
  shows "has_marker (p @ ''[Document '' @ ds @ '']'' @ q)"
proof (induction p)
  case Nil
  from match_marker_intro [OF assms, of q] show ?case
    by (simp add: marker_open_def)
next
  case (Cons c p)
  then show ?case by simp
qed

lemma has_marker_decompose:
  "has_marker s \<Longrightarrow>
   \<exists>p ds q. s = p @ ''[Document '' @ ds @ '']'' @ q \<and> ds \<noteq> [] \<and> (\<forall>d \<in> set ds. is_digit d)"
proof (induction s)
  case Nil
  then show ?case by simp
next
  case (Cons c cs)
  show ?case
  proof (cases "match_marker (c # cs)")
    case (Some m)
    obtain ds rest where "m = (ds, rest)" by (cases m)
    with Some match_marker_elim [of "c # cs" ds rest]
    have "c # cs = [] @ ''[Document '' @ ds @ '']'' @ rest \<and> ds \<noteq> []
          \<and> (\<forall>d \<in> set ds. is_digit d)"
      by (simp add: marker_open_def)
    then show ?thesis by blast
  next
    case None
    with Cons.prems have "has_marker cs" by simp
    from Cons.IH [OF this] obtain p ds q where
      "cs = p @ ''[Document '' @ ds @ '']'' @ q" "ds \<noteq> []" "\<forall>d \<in> set ds. is_digit d"
      by blast
    then have "c # cs = (c # p) @ ''[Document '' @ ds @ '']'' @ q \<and> ds \<noteq> []
               \<and> (\<forall>d \<in> set ds. is_digit d)"
      by simp
    then show ?thesis by blast
  qed
qed

lemma has_marker_iff:
  "has_marker s =
   (\<exists>p ds q. s = p @ ''[Document '' @ ds @ '']'' @ q \<and> ds \<noteq> []
      \<and> (\<forall>d \<in> set ds. d \<in> set ''0123456789''))"
proof
  assume "has_marker s"
  from has_marker_decompose [OF this] show
    "\<exists>p ds q. s = p @ ''[Document '' @ ds @ '']'' @ q \<and> ds \<noteq> []
       \<and> (\<forall>d \<in> set ds. d \<in> set ''0123456789'')"
    by (simp only: is_digit_set)
next
  assume "\<exists>p ds q. s = p @ ''[Document '' @ ds @ '']'' @ q \<and> ds \<noteq> []
       \<and> (\<forall>d \<in> set ds. d \<in> set ''0123456789'')"
  then obtain p ds q where s: "s = p @ ''[Document '' @ ds @ '']'' @ q" and ne: "ds \<noteq> []"
    and "\<forall>d \<in> set ds. d \<in> set ''0123456789''"
    by blast
  then have "\<forall>d \<in> set ds. is_digit d"
    by (simp only: is_digit_set)
  from has_marker_append [OF ne this, of p q] s show "has_marker s" by simp
qed

text \<open>When \<^verbatim>\<open>trim\<close> leaves something: when some character is not white space.\<close>

lemma trim_nonempty: "(trim l \<noteq> []) = (\<exists>c \<in> set l. \<not> is_js_space c)"
proof (cases "dropWhile is_js_space l")
  case Nil
  have "trim l = []"
    unfolding trim_def Nil by simp
  moreover have "\<forall>c \<in> set l. is_js_space c"
    using Nil by simp
  ultimately show ?thesis by simp
next
  case (Cons x xs)
  then have "\<not> is_js_space x"
    using hd_dropWhile [of is_js_space l] by simp
  moreover have "x \<in> set (rev (dropWhile is_js_space l))"
    using Cons by simp
  ultimately have "dropWhile is_js_space (rev (dropWhile is_js_space l)) \<noteq> []"
    by (simp only: dropWhile_eq_Nil_conv) blast
  moreover have "\<exists>c \<in> set l. \<not> is_js_space c"
    using Cons by (metis dropWhile_eq_Nil_conv list.distinct(1))
  ultimately show ?thesis by (simp add: trim_def)
qed

lemma split_on_none: "c \<notin> set s \<Longrightarrow> split_on c s = [s]"
  by (induction s) (auto simp: Let_def)

lemma split_on_first:
  "c \<notin> set h \<Longrightarrow> split_on c (h @ c # rest) = h # split_on c rest"
  by (induction h) (auto simp: Let_def)

subsection \<open>The chat handlers, step by step\<close>

lemma addMessageToChat_JStr:
  "addMessageToChat sender (JStr c) s =
     Inr (s\<lparr>chat_messages := chat_messages s @
               [Node (next_id s) (''message '' @ sender) (Paragraphs (paragraphs sender c))],
            next_id := Suc (next_id s)\<rparr>)"
  by (simp add: addMessageToChat_def)

lemma removeChild_present:
  "i \<in> node_id ` set (chat_messages s) \<Longrightarrow>
   removeChild i s = Inr (s\<lparr>chat_messages := filter (\<lambda>n. node_id n \<noteq> i) (chat_messages s)\<rparr>)"
  by (simp add: removeChild_def)

lemma sendMessage_nonempty:
  "trim (chat_input s) \<noteq> [] \<Longrightarrow>
   sendMessage s =
     s\<lparr>chat_messages := chat_messages s @
          [Node (next_id s) ''message user''
             (Paragraphs (paragraphs ''user'' (trim (chat_input s)))),
           Node (Suc (next_id s)) ''message bot typing-indicator''
             (TypingDots ''<span>.</span><span>.</span><span>.</span>'')],
       next_id := Suc (Suc (next_id s)),
       chat_input := [], chat_input_height := ''auto'',
       requests := requests s @
         [\<lparr>req_url = CHAT_ENDPOINT, req_method = ''POST'',
           req_headers = [(''Content-Type'', ''application/json'')],
           req_body = Some (JObj [(''message'', JStr (trim (chat_input s))),
                                  (''session_id'', JStr (sessionId s))])\<rparr>],
       pending_chat := pending_chat s @ [Suc (next_id s)]\<rparr>"
  by (simp add: sendMessage_def addTypingIndicator_def fetch_post_def json_object_def Let_def
      addMessageToChat_JStr)

lemma paragraphs_apology: "paragraphs ''bot'' apology = [apology]"
  by (simp add: paragraphs_def formattedContent_def apology_def match_marker_def
      marker_open_def newline_def trim_def is_js_space_def)

lemma paragraphs_warning: "paragraphs ''bot'' health_warning = [health_warning]"
  by (simp add: paragraphs_def formattedContent_def health_warning_def match_marker_def
      marker_open_def newline_def trim_def is_js_space_def)

lemma paragraphs_unknown_error:
  "paragraphs ''bot'' ''Error: Unknown error occurred'' = [''Error: Unknown error occurred'']"
  by (simp add: paragraphs_def formattedContent_def match_marker_def marker_open_def
      newline_def trim_def is_js_space_def)

lemma chat_then_success:
  assumes "typingIndicator \<in> node_id ` set (chat_messages t)"
    and "get_prop data ''success'' = Inr success" and "truthy success"
    and "get_prop data ''response'' = Inr (JStr r)"
  shows "chat_then typingIndicator data t =
     (None, t\<lparr>chat_messages := filter (\<lambda>n. node_id n \<noteq> typingIndicator) (chat_messages t) @
                 [Node (next_id t) ''message bot'' (Paragraphs (paragraphs ''bot'' r))],
              next_id := Suc (next_id t)\<rparr>)"
  using assms by (simp add: chat_then_def removeChild_present addMessageToChat_JStr)

lemma chat_then_failure:
  assumes "typingIndicator \<in> node_id ` set (chat_messages t)"
    and "get_prop data ''success'' = Inr success" and "\<not> truthy success"
    and "get_prop data ''error'' = Inr err"
    and "to_string (js_or err (JStr ''Unknown error occurred'')) = Inr shown"
  shows "chat_then typingIndicator data t =
     (None, t\<lparr>chat_messages := filter (\<lambda>n. node_id n \<noteq> typingIndicator) (chat_messages t) @
                 [Node (next_id t) ''message bot''
                    (Paragraphs (paragraphs ''bot'' (''Error: '' @ shown)))],
              next_id := Suc (next_id t)\<rparr>)"
  using assms by (simp add: chat_then_def removeChild_present addMessageToChat_JStr)


text \<open>The two sides of \<^verbatim>\<open>||\<close> with a string on the right, converted.\<close>

lemma js_or_string: "e \<noteq> [] \<Longrightarrow> to_string (js_or (JStr e) (JStr d)) = Inr e"
  by (simp add: js_or_def)

lemma js_or_falsy: "\<not> truthy err \<Longrightarrow> to_string (js_or err (JStr d)) = Inr d"
  by (simp add: js_or_def)

lemma js_or_truthy: "truthy err \<Longrightarrow> to_string (js_or err (JStr d)) = to_string err"
  by (simp add: js_or_def)

lemma chat_catch_present:
  assumes "typingIndicator \<in> node_id ` set (chat_messages t)"
  shows "chat_catch typingIndicator t =
     (None, t\<lparr>chat_messages := filter (\<lambda>n. node_id n \<noteq> typingIndicator) (chat_messages t) @
                 [Node (next_id t) ''message bot'' (Paragraphs [apology])],
              next_id := Suc (next_id t),
              console := console t @ [''Error sending message:'']\<rparr>)"
  using assms
  by (simp add: chat_catch_def removeChild_present addMessageToChat_JStr paragraphs_apology)

lemma chat_reply_success:
  assumes "typingIndicator \<in> node_id ` set (chat_messages t)"
    and "get_prop data ''success'' = Inr success" and "truthy success"
    and "get_prop data ''response'' = Inr (JStr r)"
  shows "chat_reply typingIndicator (Resolved data) t =
     (None, t\<lparr>pending_chat := removeAll typingIndicator (pending_chat t),
              chat_messages := filter (\<lambda>n. node_id n \<noteq> typingIndicator) (chat_messages t) @
                 [Node (next_id t) ''message bot'' (Paragraphs (paragraphs ''bot'' r))],
              next_id := Suc (next_id t)\<rparr>)"
  using assms
    chat_then_success [of typingIndicator
      "t\<lparr>pending_chat := removeAll typingIndicator (pending_chat t)\<rparr>" data success r]
  by (simp add: chat_reply_def)

lemma chat_reply_failure:
  assumes "typingIndicator \<in> node_id ` set (chat_messages t)"
    and "get_prop data ''success'' = Inr success" and "\<not> truthy success"
    and "get_prop data ''error'' = Inr err"
    and "to_string (js_or err (JStr ''Unknown error occurred'')) = Inr shown"
  shows "chat_reply typingIndicator (Resolved data) t =
     (None, t\<lparr>pending_chat := removeAll typingIndicator (pending_chat t),
              chat_messages := filter (\<lambda>n. node_id n \<noteq> typingIndicator) (chat_messages t) @
                 [Node (next_id t) ''message bot''
                    (Paragraphs (paragraphs ''bot'' (''Error: '' @ shown)))],
              next_id := Suc (next_id t)\<rparr>)"
  using assms
    chat_then_failure [of typingIndicator
      "t\<lparr>pending_chat := removeAll typingIndicator (pending_chat t)\<rparr>" data success err shown]
  by (simp add: chat_reply_def)



text \<open>
  A chat request in flight has its typing indicator in the chat: the indicator is added
  when the request is sent, and removed by the callbacks of that request only.
\<close>

lemma removeChild_shown:
  "removeChild i s = Inr s' \<Longrightarrow>
   pending_chat s' = pending_chat s
   \<and> node_id ` set (chat_messages s) - {i} \<subseteq> node_id ` set (chat_messages s')"
  by (auto simp: removeChild_def split: if_splits)

lemma addMessageToChat_shown:
  "addMessageToChat sender content s = Inr s' \<Longrightarrow>
   pending_chat s' = pending_chat s
   \<and> node_id ` set (chat_messages s) \<subseteq> node_id ` set (chat_messages s')"
  by (auto simp: addMessageToChat_def split: jsval.splits)

lemma chat_then_cases:
  "snd (chat_then i data s) = s
   \<or> (\<exists>s1. removeChild i s = Inr s1
         \<and> (snd (chat_then i data s) = s1
            \<or> (\<exists>c. addMessageToChat ''bot'' c s1 = Inr (snd (chat_then i data s)))))"
  unfolding chat_then_def by (auto split: sum.splits)

lemma chat_then_shown:
  "pending_chat (snd (chat_then i data s)) = pending_chat s
   \<and> node_id ` set (chat_messages s) - {i}
       \<subseteq> node_id ` set (chat_messages (snd (chat_then i data s)))"
proof -
  consider (same) "snd (chat_then i data s) = s"
    | (removed) s1 where "removeChild i s = Inr s1" "snd (chat_then i data s) = s1"
    | (added) s1 c where "removeChild i s = Inr s1"
        "addMessageToChat ''bot'' c s1 = Inr (snd (chat_then i data s))"
    using chat_then_cases [of i data s] by blast
  then show ?thesis
  proof cases
    case same
    then show ?thesis by auto
  next
    case removed
    from removeChild_shown [OF removed(1)] removed(2) show ?thesis by simp
  next
    case added
    from removeChild_shown [OF added(1)] addMessageToChat_shown [OF added(2)]
    show ?thesis by (simp only:) blast
  qed
qed

lemma chat_catch_cases:
  "snd (chat_catch i s) = s
   \<or> (\<exists>s1. removeChild i s = Inr s1
         \<and> (snd (chat_catch i s) = s1
            \<or> (\<exists>s2. addMessageToChat ''bot'' (JStr apology) s1 = Inr s2
                 \<and> snd (chat_catch i s) = s2\<lparr>console := console s2 @ [''Error sending message:'']\<rparr>)))"
  unfolding chat_catch_def by (auto split: sum.splits)

lemma chat_catch_shown:
  "pending_chat (snd (chat_catch i s)) = pending_chat s
   \<and> node_id ` set (chat_messages s) - {i}
       \<subseteq> node_id ` set (chat_messages (snd (chat_catch i s)))"
proof -
  consider (same) "snd (chat_catch i s) = s"
    | (removed) s1 where "removeChild i s = Inr s1" "snd (chat_catch i s) = s1"
    | (added) s1 s2 where "removeChild i s = Inr s1"
        "addMessageToChat ''bot'' (JStr apology) s1 = Inr s2"
        "snd (chat_catch i s) = s2\<lparr>console := console s2 @ [''Error sending message:'']\<rparr>"
    using chat_catch_cases [of i s] by blast
  then show ?thesis
  proof cases
    case same
    then show ?thesis by auto
  next
    case removed
    from removeChild_shown [OF removed(1)] removed(2) show ?thesis by simp
  next
    case added
    from removeChild_shown [OF added(1)] addMessageToChat_shown [OF added(2)] added(3)
    show ?thesis by simp blast
  qed
qed

lemma chat_reply_shown:
  assumes "set (pending_chat s) \<subseteq> node_id ` set (chat_messages s)"
  shows "set (pending_chat (snd (chat_reply i outcome s)))
         \<subseteq> node_id ` set (chat_messages (snd (chat_reply i outcome s)))"
proof -
  let ?s0 = "s\<lparr>pending_chat := removeAll i (pending_chat s)\<rparr>"
  have s0: "set (pending_chat ?s0) \<subseteq> node_id ` set (chat_messages ?s0) - {i}"
    using assms by auto
  show ?thesis
  proof (cases outcome)
    case Rejected
    with s0 chat_catch_shown [of i ?s0] show ?thesis
      by (simp add: chat_reply_def) blast
  next
    case (Resolved data)
    obtain e s1 where t: "chat_then i data ?s0 = (e, s1)" by (cases "chat_then i data ?s0")
    with chat_then_shown [of i data ?s0] s0
    have s1: "set (pending_chat s1) \<subseteq> node_id ` set (chat_messages s1) - {i}"
      by simp blast
    show ?thesis
    proof (cases e)
      case None
      with Resolved t s1 show ?thesis by (simp add: chat_reply_def) blast
    next
      case (Some x)
      with Resolved t s1 chat_catch_shown [of i s1] show ?thesis
        by (simp add: chat_reply_def) blast
    qed
  qed
qed

lemma upload_reply_shown:
  "pending_chat (snd (upload_reply f outcome s)) = pending_chat s
   \<and> node_id ` set (chat_messages s)
       \<subseteq> node_id ` set (chat_messages (snd (upload_reply f outcome s)))"
proof -
  let ?s0 = "s\<lparr>pending_uploads := remove1 f (pending_uploads s)\<rparr>"
  have then_shown:
    "pending_chat (snd (upload_then f data ?s0)) = pending_chat s
     \<and> node_id ` set (chat_messages s)
         \<subseteq> node_id ` set (chat_messages (snd (upload_then f data ?s0)))" for data
    unfolding upload_then_def
    by (auto simp: Let_def split: sum.splits dest!: addMessageToChat_shown)
  show ?thesis
  proof (cases outcome)
    case Rejected
    then show ?thesis by (simp add: upload_reply_def upload_catch_def)
  next
    case (Resolved data)
    obtain e s1 where t: "upload_then f data ?s0 = (e, s1)" by (cases "upload_then f data ?s0")
    with then_shown [of data] Resolved show ?thesis
      by (cases e) (simp_all add: upload_reply_def upload_catch_def)
  qed
qed

lemma health_reply_shown:
  "pending_chat (snd (health_reply outcome s)) = pending_chat s
   \<and> node_id ` set (chat_messages s)
       \<subseteq> node_id ` set (chat_messages (snd (health_reply outcome s)))"
proof -
  let ?s0 = "s\<lparr>pending_health := False\<rparr>"
  have then_shown:
    "pending_chat (snd (health_then data ?s0)) = pending_chat s
     \<and> node_id ` set (chat_messages s)
         \<subseteq> node_id ` set (chat_messages (snd (health_then data ?s0)))" for data
    unfolding health_then_def
    by (auto simp: Let_def split: sum.splits dest!: addMessageToChat_shown)
  show ?thesis
  proof (cases outcome)
    case Rejected
    then show ?thesis by (simp add: health_reply_def health_catch_def)
  next
    case (Resolved data)
    obtain e s1 where t: "health_then data ?s0 = (e, s1)" by (cases "health_then data ?s0")
    with then_shown [of data] Resolved show ?thesis
      by (cases e) (simp_all add: health_reply_def health_catch_def)
  qed
qed

lemma sendMessage_shown:
  assumes "set (pending_chat s) \<subseteq> node_id ` set (chat_messages s)"
  shows "set (pending_chat (sendMessage s)) \<subseteq> node_id ` set (chat_messages (sendMessage s))"
proof (cases "trim (chat_input s) = []")
  case True
  with assms show ?thesis by (simp add: sendMessage_def)
next
  case False
  with assms show ?thesis by (auto simp: sendMessage_nonempty)
qed

lemma step_shown:
  assumes "set (pending_chat s) \<subseteq> node_id ` set (chat_messages s)"
  shows "set (pending_chat (step s e)) \<subseteq> node_id ` set (chat_messages (step s e))"
proof (cases e)
  case (KeyPress key shiftKey)
  then show ?thesis using assms sendMessage_shown [OF assms] by (simp add: handleInputKeypress_def)
next
  case ClickSend
  then show ?thesis using sendMessage_shown [OF assms] by simp
next
  case (ChatReply i outcome)
  then show ?thesis using assms chat_reply_shown [OF assms, of i outcome] by simp
next
  case (ChangeFile f)
  then show ?thesis using assms by (simp add: handleFileSelect_def split: option.splits)
next
  case ClickConfirm
  then show ?thesis using assms by (simp add: uploadDocument_def split: option.splits)
next
  case (ReaderLoad f result)
  then show ?thesis using assms by (simp add: reader_onload_def fetch_post_def Let_def)
next
  case (UploadReply f outcome)
  then show ?thesis using assms upload_reply_shown [of f outcome s] by auto
next
  case (HealthReply outcome)
  then show ?thesis using assms health_reply_shown [of outcome s] by auto
qed (use assms in \<open>simp_all add: autoResizeTextarea_def openUploadModal_def
      resetUploadState_def closeUploadModal_def reader_onerror_def\<close>)

lemma pending_chat_shown:
  "set (pending_chat (run (page_load random36 doc) evs))
   \<subseteq> node_id ` set (chat_messages (run (page_load random36 doc) evs))"
proof (induction evs rule: rev_induct)
  case Nil
  show ?case by (simp add: run_def page_load_def checkHealth_def fetch_get_def)
next
  case (snoc e evs)
  from step_shown [OF this, of e] show ?case by (simp add: run_def)
qed

text \<open>The concrete pages, computed.\<close>

lemma demo_page_eq:
  "demo_page =
     blank_page\<lparr>sessionId := ''session_4fzyo82mvyr'',
       requests := [\<lparr>req_url = HEALTH_ENDPOINT, req_method = ''GET'', req_headers = [],
                     req_body = None\<rparr>],
       pending_health := True,
       next_id := 1\<rparr>"
  by (simp add: demo_page_def page_load_def checkHealth_def fetch_get_def blank_page_def
      fresh_id_def substring2_def clamp_index_def)

lemma demo_asked_eq:
  "demo_asked =
     blank_page\<lparr>sessionId := ''session_4fzyo82mvyr'',
       chat_messages :=
         [Node 1 ''message user'' (Paragraphs [''How long do refunds take?'']),
          Node 2 ''message bot typing-indicator''
            (TypingDots ''<span>.</span><span>.</span><span>.</span>'')],
       chat_input_height := ''auto'',
       requests :=
         [\<lparr>req_url = HEALTH_ENDPOINT, req_method = ''GET'', req_headers = [], req_body = None\<rparr>,
          \<lparr>req_url = CHAT_ENDPOINT, req_method = ''POST'',
            req_headers = [(''Content-Type'', ''application/json'')],
            req_body = Some (JObj [(''message'', JStr ''How long do refunds take?''),
                                   (''session_id'', JStr ''session_4fzyo82mvyr'')])\<rparr>],
       pending_health := True,
       pending_chat := [2],
       next_id := 3\<rparr>"
proof -
  have t: "trim ''How long do refunds take?'' = ''How long do refunds take?''"
    by (simp add: trim_def is_js_space_def)
  have p: "paragraphs ''user'' ''How long do refunds take?'' = [''How long do refunds take?'']"
    by (simp add: paragraphs_def formattedContent_def newline_def trim_def is_js_space_def)
  show ?thesis
    unfolding demo_asked_def run_def demo_page_eq
    by (simp add: autoResizeTextarea_def sendMessage_nonempty t p blank_page_def)
qed

lemma demo_selected_eq:
  "demo_selected =
     blank_page\<lparr>sessionId := ''session_4fzyo82mvyr'',
       requests := [\<lparr>req_url = HEALTH_ENDPOINT, req_method = ''GET'', req_headers = [],
                     req_body = None\<rparr>],
       pending_health := True,
       next_id := 1,
       upload_modal_display := ''flex'',
       file_upload := Some \<lparr>file_name = ''faq.pdf''\<rparr>,
       upload_progress_width := ''0'',
       upload_status_text := ''Selected file: faq.pdf'',
       confirm_disabled := False\<rparr>"
proof -
  have "fileExtension ''faq.pdf'' = ''.pdf''"
    by (simp add: fileExtension_def lastIndexOf_def substring1_def clamp_index_def
        toLowerCase_def lower_char_def Let_def)
  then show ?thesis
    unfolding demo_selected_def run_def demo_page_eq
    by (simp add: openUploadModal_def resetUploadState_def handleFileSelect_def
        validTypes_def blank_page_def)
qed

subsection \<open>An empty message is not sent\<close>

text \<open>
  Claim C9. When the text area holds nothing but white space, \<open>sendMessage\<close> leaves the
  page as it is: no request is sent, nothing is added to the chat, and the text area keeps
  its value. So do the click on the send button and the Enter key.
\<close>

theorem sendMessage_blank_noop:
  assumes "trim (chat_input s) = []"
  shows "sendMessage s = s \<and> step s ClickSend = s \<and> step s (KeyPress ''Enter'' False) = s"
  using assms by (simp add: sendMessage_def handleInputKeypress_def)

theorem sendMessage_blank_noop_witness:
  "trim (chat_input (demo_page\<lparr>chat_input := [CHR '' '', CHR 0x0A, CHR 0x09]\<rparr>)) = []
   \<and> requests (sendMessage (demo_page\<lparr>chat_input := [CHR '' '', CHR 0x0A, CHR 0x09]\<rparr>)) =
       requests demo_page
   \<and> chat_messages (sendMessage (demo_page\<lparr>chat_input := [CHR '' '', CHR 0x0A, CHR 0x09]\<rparr>)) = []
   \<and> chat_input (sendMessage (demo_page\<lparr>chat_input := [CHR '' '', CHR 0x0A, CHR 0x09]\<rparr>)) =
       [CHR '' '', CHR 0x0A, CHR 0x09]"
proof -
  have blank: "trim (chat_input (demo_page\<lparr>chat_input := [CHR '' '', CHR 0x0A, CHR 0x09]\<rparr>)) = []"
    by (simp add: trim_def is_js_space_def)
  from sendMessage_blank_noop [OF blank] blank show ?thesis
    by (simp add: demo_page_eq blank_page_def)
qed

subsection \<open>A message is posted, and the reply is added to the chat\<close>

text \<open>
  Claim C6. For a message that is not empty once trimmed, \<open>sendMessage\<close> sends one POST
  to the chat endpoint whose body is the object of the trimmed message and the session
  identifier, adds the message and a typing indicator to the chat, and leaves the request
  in flight. On any page reached after loading, when the reply to a request in flight
  arrives: on a truthy \<open>success\<close> with a string \<open>response\<close> the typing indicator gives
  way to a bot message holding the paragraphs of the response; on a falsy \<open>success\<close> the
  typing indicator gives way to a bot message holding \<open>Error: \<close> followed by the
  \<open>error\<close> field when that is a string that is not empty, \<open>Error: Unknown error
  occurred\<close> when the field is missing or falsy, and \<open>Error: \<close> followed by the string
  form of any other value that has one. The callbacks throw nothing in these cases.
\<close>

theorem sendMessage_posts_and_shows_reply:
  assumes "trim (chat_input s) \<noteq> []"
    and "t = run (page_load random36 doc) evs"
    and "typingIndicator \<in> set (pending_chat t)"
    and "get_prop data ''success'' = Inr success"
  shows "requests (sendMessage s) = requests s @
           [\<lparr>req_url = CHAT_ENDPOINT, req_method = ''POST'',
             req_headers = [(''Content-Type'', ''application/json'')],
             req_body = Some (JObj [(''message'', JStr (trim (chat_input s))),
                                    (''session_id'', JStr (sessionId s))])\<rparr>]
      \<and> chat_messages (sendMessage s) = chat_messages s @
           [Node (next_id s) ''message user''
              (Paragraphs (paragraphs ''user'' (trim (chat_input s)))),
            Node (Suc (next_id s)) ''message bot typing-indicator''
              (TypingDots ''<span>.</span><span>.</span><span>.</span>'')]
      \<and> pending_chat (sendMessage s) = pending_chat s @ [Suc (next_id s)]
      \<and> (truthy success \<and> get_prop data ''response'' = Inr (JStr r) \<longrightarrow>
           chat_reply typingIndicator (Resolved data) t =
             (None, t\<lparr>pending_chat := removeAll typingIndicator (pending_chat t),
                      chat_messages :=
                         filter (\<lambda>n. node_id n \<noteq> typingIndicator) (chat_messages t) @
                         [Node (next_id t) ''message bot'' (Paragraphs (paragraphs ''bot'' r))],
                      next_id := Suc (next_id t)\<rparr>))
      \<and> (\<not> truthy success \<and> get_prop data ''error'' = Inr (JStr e) \<and> e \<noteq> [] \<longrightarrow>
           chat_reply typingIndicator (Resolved data) t =
             (None, t\<lparr>pending_chat := removeAll typingIndicator (pending_chat t),
                      chat_messages :=
                         filter (\<lambda>n. node_id n \<noteq> typingIndicator) (chat_messages t) @
                         [Node (next_id t) ''message bot''
                            (Paragraphs (paragraphs ''bot'' (''Error: '' @ e)))],
                      next_id := Suc (next_id t)\<rparr>))
      \<and> (\<not> truthy success \<and> get_prop data ''error'' = Inr err \<and> \<not> truthy err \<longrightarrow>
           chat_reply typingIndicator (Resolved data) t =
             (None, t\<lparr>pending_chat := removeAll typingIndicator (pending_chat t),
                      chat_messages :=
                         filter (\<lambda>n. node_id n \<noteq> typingIndicator) (chat_messages t) @
                         [Node (next_id t) ''message bot''
                            (Paragraphs [''Error: Unknown error occurred''])],
                      next_id := Suc (next_id t)\<rparr>))
      \<and> (\<not> truthy success \<and> get_prop data ''error'' = Inr err \<and> truthy err
           \<and> to_string err = Inr shown \<longrightarrow>
           chat_reply typingIndicator (Resolved data) t =
             (None, t\<lparr>pending_chat := removeAll typingIndicator (pending_chat t),
                      chat_messages :=
                         filter (\<lambda>n. node_id n \<noteq> typingIndicator) (chat_messages t) @
                         [Node (next_id t) ''message bot''
                            (Paragraphs (paragraphs ''bot'' (''Error: '' @ shown)))],
                      next_id := Suc (next_id t)\<rparr>))"
proof -
  have shown: "typingIndicator \<in> node_id ` set (chat_messages t)"
    using assms(2,3) pending_chat_shown [of random36 doc evs] by blast
  note fail = chat_reply_failure [OF shown assms(4)]
  have "\<not> truthy success \<and> get_prop data ''error'' = Inr (JStr e) \<and> e \<noteq> [] \<longrightarrow>
           chat_reply typingIndicator (Resolved data) t =
             (None, t\<lparr>pending_chat := removeAll typingIndicator (pending_chat t),
                      chat_messages :=
                         filter (\<lambda>n. node_id n \<noteq> typingIndicator) (chat_messages t) @
                         [Node (next_id t) ''message bot''
                            (Paragraphs (paragraphs ''bot'' (''Error: '' @ e)))],
                      next_id := Suc (next_id t)\<rparr>)"
    using fail [of "JStr e" e] js_or_string [of e] by blast
  moreover have "\<not> truthy success \<and> get_prop data ''error'' = Inr err \<and> \<not> truthy err \<longrightarrow>
           chat_reply typingIndicator (Resolved data) t =
             (None, t\<lparr>pending_chat := removeAll typingIndicator (pending_chat t),
                      chat_messages :=
                         filter (\<lambda>n. node_id n \<noteq> typingIndicator) (chat_messages t) @
                         [Node (next_id t) ''message bot''
                            (Paragraphs [''Error: Unknown error occurred''])],
                      next_id := Suc (next_id t)\<rparr>)"
    using fail [of err "''Unknown error occurred''"] js_or_falsy [of err] paragraphs_unknown_error
    by simp
  moreover have "\<not> truthy success \<and> get_prop data ''error'' = Inr err \<and> truthy err
           \<and> to_string err = Inr shown \<longrightarrow>
           chat_reply typingIndicator (Resolved data) t =
             (None, t\<lparr>pending_chat := removeAll typingIndicator (pending_chat t),
                      chat_messages :=
                         filter (\<lambda>n. node_id n \<noteq> typingIndicator) (chat_messages t) @
                         [Node (next_id t) ''message bot''
                            (Paragraphs (paragraphs ''bot'' (''Error: '' @ shown)))],
                      next_id := Suc (next_id t)\<rparr>)" for shown
    using fail [of err shown] js_or_truthy [of err] by simp
  ultimately show ?thesis
    using assms(1,4) shown
    by (simp add: sendMessage_nonempty chat_reply_success)
qed

text \<open>
  The question of the example is posted with the session identifier of the page; a reply
  of two lines becomes a bot message of two paragraphs; a failure becomes a bot message
  with the text of its \<open>error\<close> field, with \<open>Unknown error occurred\<close> when it has
  none, and with the string form of an \<open>error\<close> that is an array.
\<close>

theorem sendMessage_posts_and_shows_reply_witness:
  "trim (chat_input (demo_page\<lparr>chat_input := ''  How long do refunds take? ''\<rparr>)) \<noteq> []
   \<and> 2 \<in> set (pending_chat demo_asked)
   \<and> map req_body (requests (sendMessage
         (demo_page\<lparr>chat_input := ''  How long do refunds take? ''\<rparr>))) =
       [None, Some (JObj [(''message'', JStr ''How long do refunds take?''),
                          (''session_id'', JStr ''session_4fzyo82mvyr'')])]
   \<and> map node_body (chat_messages (snd (chat_reply 2
         (Resolved (JObj [(''success'', JBool True),
                          (''response'', JStr [CHR ''5'', CHR 0x0A, CHR ''d''])])) demo_asked))) =
       [Paragraphs [''How long do refunds take?''], Paragraphs [''5'', ''d'']]
   \<and> map node_body (chat_messages (snd (chat_reply 2
         (Resolved (JObj [(''success'', JBool False), (''error'', JStr ''Index not ready'')]))
         demo_asked))) =
       [Paragraphs [''How long do refunds take?''], Paragraphs [''Error: Index not ready'']]
   \<and> map node_body (chat_messages (snd (chat_reply 2
         (Resolved (JObj [(''success'', JBool False)])) demo_asked))) =
       [Paragraphs [''How long do refunds take?''],
        Paragraphs [''Error: Unknown error occurred'']]
   \<and> map node_body (chat_messages (snd (chat_reply 2
         (Resolved (JObj [(''success'', JBool False),
                          (''error'', JArr [JStr ''a'', JNull, JBool True, JObj []])]))
         demo_asked))) =
       [Paragraphs [''How long do refunds take?''],
        Paragraphs [''Error: a,,true,[object Object]'']]"
proof -
  let ?s = "demo_page\<lparr>chat_input := ''  How long do refunds take? ''\<rparr>"
  let ?ok = "JObj [(''success'', JBool True),
                   (''response'', JStr [CHR ''5'', CHR 0x0A, CHR ''d''])]"
  let ?msg = "JObj [(''success'', JBool False), (''error'', JStr ''Index not ready'')]"
  let ?bad = "JObj [(''success'', JBool False)]"
  let ?arr = "JObj [(''success'', JBool False),
                    (''error'', JArr [JStr ''a'', JNull, JBool True, JObj []])]"
  have t: "trim (chat_input ?s) = ''How long do refunds take?''"
    by (simp add: trim_def is_js_space_def)
  then have ne: "trim (chat_input ?s) \<noteq> []" by simp
  have reached: "demo_asked = run (page_load ''0.4fzyo82mvyr'' blank_page)
                   [EditInput ''How long do refunds take?'' 24, ClickSend]"
    by (simp add: demo_asked_def demo_page_def)
  have tid: "2 \<in> set (pending_chat demo_asked)"
    by (simp add: demo_asked_eq)
  have ok: "get_prop ?ok ''success'' = Inr (JBool True)"
    and msg: "get_prop ?msg ''success'' = Inr (JBool False)"
    and bad: "get_prop ?bad ''success'' = Inr (JBool False)"
    and arr: "get_prop ?arr ''success'' = Inr (JBool False)"
    by simp_all
  have p1: "paragraphs ''bot'' [CHR ''5'', CHR 0x0A, CHR ''d''] = [''5'', ''d'']"
    by (simp add: paragraphs_def formattedContent_def match_marker_def marker_open_def
        newline_def trim_def is_js_space_def)
  have p2: "paragraphs ''bot'' ''Error: Index not ready'' = [''Error: Index not ready'']"
    by (simp add: paragraphs_def formattedContent_def match_marker_def marker_open_def
        newline_def trim_def is_js_space_def)
  have p3: "paragraphs ''bot'' ''Error: a,,true,[object Object]'' =
            [''Error: a,,true,[object Object]'']"
    by (simp add: paragraphs_def formattedContent_def match_marker_def marker_open_def
        newline_def trim_def is_js_space_def)
  have s3: "to_string (JArr [JStr ''a'', JNull, JBool True, JObj []]) =
            Inr ''a,,true,[object Object]''"
    by simp
  from sendMessage_posts_and_shows_reply [OF ne reached tid ok,
      where r = "[CHR ''5'', CHR 0x0A, CHR ''d'']"]
    sendMessage_posts_and_shows_reply [OF ne reached tid msg, where e = "''Index not ready''"]
    sendMessage_posts_and_shows_reply [OF ne reached tid bad, where err = JUndefined]
    sendMessage_posts_and_shows_reply [OF ne reached tid arr,
      where err = "JArr [JStr ''a'', JNull, JBool True, JObj []]"
        and shown = "''a,,true,[object Object]''"]
  show ?thesis
    using ne t tid s3 by (simp add: p1 p2 p3 demo_asked_eq demo_page_eq blank_page_def)
qed

subsection \<open>Citation markers are rendered, not checked\<close>

text \<open>
  Claim C3, as the specification states it, fails on the client: nothing of the chunks
  supplied to the generation reaches \<open>addMessageToChat\<close>, which takes the sender and
  the text only. On the page of the example, where nothing was retrieved, a reply citing
  a seventh document is added to the chat with that citation rewritten as a source span
  in the \<^verbatim>\<open>innerHTML\<close> of its paragraph.
\<close>

theorem unsupplied_citation_displayed:
  "chat_reply 2
     (Resolved (JObj [(''success'', JBool True),
                      (''response'', JStr ''Refunds take 5 days [Document 7].'')]))
     demo_asked =
   (None,
    demo_asked\<lparr>pending_chat := [],
      chat_messages :=
        [Node 1 ''message user'' (Paragraphs [''How long do refunds take?'']),
         Node 3 ''message bot''
           (Paragraphs [''Refunds take 5 days <span class=\"source\">Source 7</span>.''])],
      next_id := 4\<rparr>)"
proof -
  have p: "paragraphs ''bot'' ''Refunds take 5 days [Document 7].'' =
           [''Refunds take 5 days <span class=\"source\">Source 7</span>.'']"
    by (simp add: paragraphs_def formattedContent_def match_marker_def marker_open_def
        source_span_def is_digit_def newline_def trim_def is_js_space_def)
  have tid: "2 \<in> node_id ` set (chat_messages demo_asked)"
    by (simp add: demo_asked_eq)
  show ?thesis
    by (simp add: chat_reply_success [OF tid, where success = "JBool True"] p)
      (simp add: demo_asked_eq)
qed

text \<open>
  Claim C3, amended. The text of a bot message is rewritten before it is given to the
  paragraphs as their \<^verbatim>\<open>innerHTML\<close>: a text holds a marker when it is some text, then
  \<^verbatim>\<open>[Document N]\<close> with \<open>N\<close> one or more of the digits 0 to 9, then some text; a text
  that holds no marker is left as it is; in a text that holds one, the leftmost marker
  is replaced by \<^verbatim>\<open><span class="source">Source N</span>\<close>, what precedes it is left as
  it is, and what follows it is rewritten in the same way, whatever \<open>N\<close> is and whatever
  was retrieved; no marker is left in the result. The text of any other sender is given
  as it is, with no replacement and no escaping. The message added to the chat holds,
  in order, the lines of that text (the pieces between line feeds) that do not consist
  of white space only.
\<close>

theorem citations_rendered_unchecked:
  "has_marker c =
     (\<exists>p ds q. c = p @ ''[Document '' @ ds @ '']'' @ q \<and> ds \<noteq> []
        \<and> (\<forall>d \<in> set ds. d \<in> set ''0123456789''))
   \<and> (\<not> has_marker c \<longrightarrow> formattedContent ''bot'' c = c)
   \<and> (\<not> has_marker p \<and> ds \<noteq> [] \<and> (\<forall>d \<in> set ds. d \<in> set ''0123456789'') \<longrightarrow>
        formattedContent ''bot'' (p @ ''[Document '' @ ds @ '']'' @ q) =
          p @ ''<span class=\"source\">Source '' @ ds @ ''</span>''
            @ formattedContent ''bot'' q)
   \<and> \<not> has_marker (formattedContent ''bot'' c)
   \<and> (sender \<noteq> ''bot'' \<longrightarrow> formattedContent sender c = c)
   \<and> addMessageToChat sender (JStr c) s =
       Inr (s\<lparr>chat_messages := chat_messages s @
                 [Node (next_id s) (''message '' @ sender)
                    (Paragraphs (filter (\<lambda>l. \<exists>x \<in> set l. \<not> is_js_space x)
                       (split_on (CHR 0x0A) (formattedContent sender c))))],
              next_id := Suc (next_id s)\<rparr>)
   \<and> (CHR 0x0A \<notin> set l \<longrightarrow> split_on (CHR 0x0A) l = [l])
   \<and> (CHR 0x0A \<notin> set l \<longrightarrow>
        split_on (CHR 0x0A) (l @ CHR 0x0A # r) = l # split_on (CHR 0x0A) r)"
proof (intro conjI impI)
  show "has_marker c =
     (\<exists>p ds q. c = p @ ''[Document '' @ ds @ '']'' @ q \<and> ds \<noteq> []
        \<and> (\<forall>d \<in> set ds. d \<in> set ''0123456789''))"
    by (rule has_marker_iff)
next
  assume "\<not> has_marker c"
  then show "formattedContent ''bot'' c = c"
    by (simp add: formattedContent_def replace_citations_id)
next
  assume a: "\<not> has_marker p \<and> ds \<noteq> [] \<and> (\<forall>d \<in> set ds. d \<in> set ''0123456789'')"
  then have "\<forall>d \<in> set ds. is_digit d"
    by (simp only: is_digit_set) simp
  with a replace_citations_leftmost [of p ds q]
  show "formattedContent ''bot'' (p @ ''[Document '' @ ds @ '']'' @ q) =
          p @ ''<span class=\"source\">Source '' @ ds @ ''</span>''
            @ formattedContent ''bot'' q"
    by (simp add: formattedContent_def source_span_def)
next
  show "\<not> has_marker (formattedContent ''bot'' c)"
    using replace_citations_no_marker [of c] by (simp add: formattedContent_def)
next
  assume "sender \<noteq> ''bot''"
  then show "formattedContent sender c = c"
    by (simp add: formattedContent_def)
next
  show "addMessageToChat sender (JStr c) s =
       Inr (s\<lparr>chat_messages := chat_messages s @
                 [Node (next_id s) (''message '' @ sender)
                    (Paragraphs (filter (\<lambda>l. \<exists>x \<in> set l. \<not> is_js_space x)
                       (split_on (CHR 0x0A) (formattedContent sender c))))],
              next_id := Suc (next_id s)\<rparr>)"
    by (simp add: addMessageToChat_def paragraphs_def newline_def trim_nonempty)
next
  assume "CHR 0x0A \<notin> set l"
  then show "split_on (CHR 0x0A) l = [l]"
    by (rule split_on_none)
next
  assume "CHR 0x0A \<notin> set l"
  then show "split_on (CHR 0x0A) (l @ CHR 0x0A # r) = l # split_on (CHR 0x0A) r"
    by (rule split_on_first)
qed

text \<open>
  A marker after a bracket that opens no marker is replaced and the bracket is kept; two
  markers are replaced both; the same text from the user is given as it is; and a reply
  of three lines, the second one blank, becomes a message of two paragraphs.
\<close>

theorem citations_rendered_unchecked_witness:
  "\<not> has_marker ''[a] '' \<and> \<not> has_marker ''.'' \<and> has_marker ''[a] [Document 2].''
   \<and> ''user'' \<noteq> ''bot''
   \<and> formattedContent ''bot'' ''[a] [Document 2].'' =
       ''[a] <span class=\"source\">Source 2</span>.''
   \<and> formattedContent ''bot'' ''[Document 12][Document 7]'' =
       ''<span class=\"source\">Source 12</span><span class=\"source\">Source 7</span>''
   \<and> formattedContent ''user'' ''[a] [Document 2].'' = ''[a] [Document 2].''
   \<and> map node_body (chat_messages (projr (addMessageToChat ''bot''
         (JStr (''See [Document 3]'' @ [CHR 0x0A] @ '' '' @ [CHR 0x0A] @ ''there''))
         blank_page))) =
       [Paragraphs [''See <span class=\"source\">Source 3</span>'', ''there'']]"
proof -
  let ?nl = "CHR 0x0A"
  have h1: "\<not> has_marker ''[a] ''" and h2: "\<not> has_marker ''.''" and h3: "\<not> has_marker []"
    and h4: "\<not> has_marker ''See ''"
    and h5: "\<not> has_marker ([?nl] @ '' '' @ [?nl] @ ''there'')"
    by (simp_all add: match_marker_def marker_open_def)
  have d2: "\<forall>d \<in> set ''2''. d \<in> set ''0123456789''"
    and d12: "\<forall>d \<in> set ''12''. d \<in> set ''0123456789''"
    and d7: "\<forall>d \<in> set ''7''. d \<in> set ''0123456789''"
    and d3: "\<forall>d \<in> set ''3''. d \<in> set ''0123456789''"
    by simp_all
  note dot = citations_rendered_unchecked [of "''.''", THEN conjunct2, THEN conjunct1]
  note nil = citations_rendered_unchecked [of "[]", THEN conjunct2, THEN conjunct1]
  note tail = citations_rendered_unchecked [of "[?nl] @ '' '' @ [?nl] @ ''there''",
      THEN conjunct2, THEN conjunct1]
  have m: "has_marker ''[a] [Document 2].''"
    using citations_rendered_unchecked [of "''[a] [Document 2].''", THEN conjunct1] d2
    by (simp only:) (rule exI [of _ "''[a] ''"], rule exI [of _ "''2''"],
        rule exI [of _ "''.''"], simp)
  have a: "formattedContent ''bot'' ''[a] [Document 2].'' =
       ''[a] <span class=\"source\">Source 2</span>.''"
    using citations_rendered_unchecked [where p = "''[a] ''" and ds = "''2''" and q = "''.''",
        THEN conjunct2, THEN conjunct2, THEN conjunct1] h1 h2 d2 dot
    by simp
  have b0: "formattedContent ''bot'' ''[Document 7]'' = ''<span class=\"source\">Source 7</span>''"
    using citations_rendered_unchecked [where p = "[]" and ds = "''7''" and q = "[]",
        THEN conjunct2, THEN conjunct2, THEN conjunct1] h3 d7 nil
    by simp
  have b: "formattedContent ''bot'' ''[Document 12][Document 7]'' =
       ''<span class=\"source\">Source 12</span><span class=\"source\">Source 7</span>''"
    using citations_rendered_unchecked [where p = "[]" and ds = "''12''"
          and q = "''[Document 7]''", THEN conjunct2, THEN conjunct2, THEN conjunct1] h3 d12 b0
    by simp
  have c: "formattedContent ''user'' ''[a] [Document 2].'' = ''[a] [Document 2].''"
    using citations_rendered_unchecked [where sender = "''user''"
          and c = "''[a] [Document 2].''", THEN conjunct2, THEN conjunct2, THEN conjunct2,
        THEN conjunct2, THEN conjunct1]
    by simp
  have f: "formattedContent ''bot'' (''See [Document 3]'' @ [?nl] @ '' '' @ [?nl] @ ''there'') =
           ''See <span class=\"source\">Source 3</span>'' @ [?nl] @ '' '' @ [?nl] @ ''there''"
    using citations_rendered_unchecked [where p = "''See ''" and ds = "''3''"
          and q = "[?nl] @ '' '' @ [?nl] @ ''there''",
        THEN conjunct2, THEN conjunct2, THEN conjunct1] h4 h5 d3 tail
    by simp
  have e: "map node_body (chat_messages (projr (addMessageToChat ''bot''
         (JStr (''See [Document 3]'' @ [?nl] @ '' '' @ [?nl] @ ''there'')) blank_page))) =
       [Paragraphs [''See <span class=\"source\">Source 3</span>'', ''there'']]"
    using citations_rendered_unchecked [where sender = "''bot''"
          and c = "''See [Document 3]'' @ [?nl] @ '' '' @ [?nl] @ ''there''"
          and s = blank_page,
        THEN conjunct2, THEN conjunct2, THEN conjunct2, THEN conjunct2, THEN conjunct2,
        THEN conjunct1]
    by (simp only: f) (simp add: blank_page_def is_js_space_def)
  have u: "''user'' \<noteq> ''bot''" by simp
  from h1 h2 m u a b c e show ?thesis by blast
qed

subsection \<open>What is added to the chat when a chat query fails\<close>


text \<open>
  When the then callback itself throws (here on \<^verbatim>\<open>null\<close>, whose \<open>success\<close> cannot
  be read), the catch callback runs after the typing indicator is gone: its
  \<^verbatim>\<open>removeChild\<close> throws in turn, and no message is added.
\<close>

lemma chat_reply_null:
  assumes "typingIndicator \<in> node_id ` set (chat_messages t)"
  shows "chat_reply typingIndicator (Resolved JNull) t =
           (Some NotFoundError,
            t\<lparr>pending_chat := removeAll typingIndicator (pending_chat t),
              chat_messages :=
                filter (\<lambda>n. node_id n \<noteq> typingIndicator) (chat_messages t)\<rparr>)"
proof -
  have "typingIndicator \<notin>
        node_id ` set (filter (\<lambda>n. node_id n \<noteq> typingIndicator) (chat_messages t))"
    by auto
  then show ?thesis
    using assms
    by (simp add: chat_reply_def chat_then_def chat_catch_def removeChild_def
        del: set_filter)
qed



subsection \<open>The health check on load\<close>

text \<open>
  Claim C8. Loading the page sends one GET to the health endpoint and awaits the answer.
  When the answer is a value with properties (anything but \<^verbatim>\<open>null\<close>), a bot message
  with the warning is added to the chat if its \<open>status\<close> is not the string
  \<open>healthy\<close>, and nothing is added if it is; the callback throws nothing either way.
\<close>

theorem health_warning_iff_not_healthy:
  "requests (page_load random36 doc) =
     [\<lparr>req_url = HEALTH_ENDPOINT, req_method = ''GET'', req_headers = [], req_body = None\<rparr>]
   \<and> pending_health (page_load random36 doc)
   \<and> (get_prop data ''status'' = Inr status \<and> status \<noteq> JStr ''healthy'' \<longrightarrow>
        fst (health_reply (Resolved data) s) = None
        \<and> chat_messages (snd (health_reply (Resolved data) s)) =
            chat_messages s @ [Node (next_id s) ''message bot'' (Paragraphs [health_warning])])
   \<and> (get_prop data ''status'' = Inr (JStr ''healthy'') \<longrightarrow>
        fst (health_reply (Resolved data) s) = None
        \<and> chat_messages (snd (health_reply (Resolved data) s)) = chat_messages s)"
  by (simp add: page_load_def checkHealth_def fetch_get_def health_reply_def health_then_def
      addMessageToChat_JStr paragraphs_warning Let_def)

theorem health_warning_iff_not_healthy_witness:
  "get_prop (JObj [(''status'', JStr ''degraded'')]) ''status'' = Inr (JStr ''degraded'')
   \<and> JStr ''degraded'' \<noteq> JStr ''healthy''
   \<and> chat_messages (snd (health_reply (Resolved (JObj [(''status'', JStr ''degraded'')]))
        demo_page)) = [Node 1 ''message bot'' (Paragraphs [health_warning])]
   \<and> get_prop (JObj [(''status'', JStr ''healthy'')]) ''status'' = Inr (JStr ''healthy'')
   \<and> chat_messages (snd (health_reply (Resolved (JObj [(''status'', JStr ''healthy'')]))
        demo_page)) = []"
  using health_warning_iff_not_healthy
      [of "''0.4fzyo82mvyr''" blank_page "JObj [(''status'', JStr ''degraded'')]"
          "JStr ''degraded''" demo_page]
    health_warning_iff_not_healthy
      [of "''0.4fzyo82mvyr''" blank_page "JObj [(''status'', JStr ''healthy'')]"
          "JStr ''healthy''" demo_page]
  by (simp add: demo_page_eq blank_page_def)

subsection \<open>One session identifier for the life of the page\<close>

lemma removeChild_frame:
  "removeChild i s = Inr s' \<Longrightarrow> sessionId s' = sessionId s \<and> requests s' = requests s"
  by (auto simp: removeChild_def split: if_splits)

lemma addMessageToChat_frame:
  "addMessageToChat sender content s = Inr s' \<Longrightarrow>
   sessionId s' = sessionId s \<and> requests s' = requests s"
  by (auto simp: addMessageToChat_def split: jsval.splits)

lemma chat_then_frame:
  "sessionId (snd (chat_then i data s)) = sessionId s
   \<and> requests (snd (chat_then i data s)) = requests s"
  unfolding chat_then_def
  by (auto split: sum.splits dest!: removeChild_frame addMessageToChat_frame)

lemma chat_catch_frame:
  "sessionId (snd (chat_catch i s)) = sessionId s
   \<and> requests (snd (chat_catch i s)) = requests s"
  unfolding chat_catch_def
  by (auto split: sum.splits dest!: removeChild_frame addMessageToChat_frame)

lemma chat_reply_frame:
  "sessionId (snd (chat_reply i outcome s)) = sessionId s
   \<and> requests (snd (chat_reply i outcome s)) = requests s"
proof (cases outcome)
  case Rejected
  then show ?thesis by (simp add: chat_reply_def chat_catch_frame)
next
  case (Resolved data)
  let ?s0 = "s\<lparr>pending_chat := removeAll i (pending_chat s)\<rparr>"
  obtain e s1 where t: "chat_then i data ?s0 = (e, s1)" by (cases "chat_then i data ?s0")
  with chat_then_frame [of i data ?s0]
  have "sessionId s1 = sessionId s" "requests s1 = requests s" by simp_all
  with Resolved t chat_catch_frame [of i s1] show ?thesis
    by (cases e) (simp_all add: chat_reply_def)
qed

lemma upload_then_frame:
  "sessionId (snd (upload_then f data s)) = sessionId s
   \<and> requests (snd (upload_then f data s)) = requests s"
  unfolding upload_then_def
  by (auto simp: Let_def split: sum.splits dest!: addMessageToChat_frame)

lemma upload_reply_frame:
  "sessionId (snd (upload_reply f outcome s)) = sessionId s
   \<and> requests (snd (upload_reply f outcome s)) = requests s"
proof (cases outcome)
  case Rejected
  then show ?thesis by (simp add: upload_reply_def upload_catch_def)
next
  case (Resolved data)
  let ?s0 = "s\<lparr>pending_uploads := remove1 f (pending_uploads s)\<rparr>"
  obtain e s1 where t: "upload_then f data ?s0 = (e, s1)" by (cases "upload_then f data ?s0")
  with upload_then_frame [of f data ?s0]
  have "sessionId s1 = sessionId s" "requests s1 = requests s" by simp_all
  with Resolved t show ?thesis
    by (cases e) (simp_all add: upload_reply_def upload_catch_def)
qed

lemma health_then_frame:
  "sessionId (snd (health_then data s)) = sessionId s
   \<and> requests (snd (health_then data s)) = requests s"
  unfolding health_then_def
  by (auto simp: Let_def split: sum.splits dest!: addMessageToChat_frame)

lemma health_reply_frame:
  "sessionId (snd (health_reply outcome s)) = sessionId s
   \<and> requests (snd (health_reply outcome s)) = requests s"
proof (cases outcome)
  case Rejected
  then show ?thesis by (simp add: health_reply_def health_catch_def)
next
  case (Resolved data)
  let ?s0 = "s\<lparr>pending_health := False\<rparr>"
  obtain e s1 where t: "health_then data ?s0 = (e, s1)" by (cases "health_then data ?s0")
  with health_then_frame [of data ?s0]
  have "sessionId s1 = sessionId s" "requests s1 = requests s" by simp_all
  with Resolved t show ?thesis
    by (cases e) (simp_all add: health_reply_def health_catch_def)
qed

lemma sendMessage_frame:
  "sessionId (sendMessage s) = sessionId s
   \<and> (requests (sendMessage s) = requests s
      \<or> (\<exists>m. requests (sendMessage s) = requests s @
            [\<lparr>req_url = CHAT_ENDPOINT, req_method = ''POST'',
              req_headers = [(''Content-Type'', ''application/json'')],
              req_body = Some (JObj [(''message'', JStr m),
                                     (''session_id'', JStr (sessionId s))])\<rparr>]))"
proof (cases "trim (chat_input s) = []")
  case True
  then show ?thesis by (simp add: sendMessage_def)
next
  case False
  then show ?thesis by (simp add: sendMessage_nonempty)
qed

lemma endpoints_differ:
  "UPLOAD_ENDPOINT \<noteq> CHAT_ENDPOINT" "HEALTH_ENDPOINT \<noteq> CHAT_ENDPOINT"
  by (simp_all add: UPLOAD_ENDPOINT_def CHAT_ENDPOINT_def HEALTH_ENDPOINT_def)

lemma step_sessionId: "sessionId (step s e) = sessionId s"
proof (cases e)
  case (KeyPress key shiftKey)
  then show ?thesis using sendMessage_frame [of s] by (simp add: handleInputKeypress_def)
next
  case ClickSend
  then show ?thesis using sendMessage_frame [of s] by simp
next
  case (ChatReply i outcome)
  then show ?thesis by (simp add: chat_reply_frame)
next
  case (ChangeFile f)
  then show ?thesis by (simp add: handleFileSelect_def split: option.splits)
next
  case ClickConfirm
  then show ?thesis by (simp add: uploadDocument_def split: option.splits)
next
  case (UploadReply f outcome)
  then show ?thesis by (simp add: upload_reply_frame)
next
  case (HealthReply outcome)
  then show ?thesis by (simp add: health_reply_frame)
qed (simp_all add: autoResizeTextarea_def openUploadModal_def resetUploadState_def
      closeUploadModal_def reader_onload_def fetch_post_def reader_onerror_def)

lemma step_carries_session:
  assumes "carries_session sid s" and "sessionId s = sid"
  shows "carries_session sid (step s e)"
proof (cases e)
  case (KeyPress key shiftKey)
  then show ?thesis
    using assms sendMessage_frame [of s]
    by (auto simp: handleInputKeypress_def carries_session_def session_id_of_def)
next
  case ClickSend
  then show ?thesis
    using assms sendMessage_frame [of s]
    by (auto simp: carries_session_def session_id_of_def)
next
  case (ChatReply i outcome)
  then show ?thesis using assms by (simp add: chat_reply_frame carries_session_def)
next
  case (ChangeFile f)
  then show ?thesis
    using assms by (simp add: handleFileSelect_def carries_session_def split: option.splits)
next
  case ClickConfirm
  then show ?thesis
    using assms by (simp add: uploadDocument_def carries_session_def split: option.splits)
next
  case (ReaderLoad f result)
  then show ?thesis
    using assms endpoints_differ
    by (auto simp: reader_onload_def fetch_post_def carries_session_def)
next
  case (UploadReply f outcome)
  then show ?thesis using assms by (simp add: upload_reply_frame carries_session_def)
next
  case (HealthReply outcome)
  then show ?thesis using assms by (simp add: health_reply_frame carries_session_def)
qed (use assms in \<open>simp_all add: autoResizeTextarea_def openUploadModal_def
      resetUploadState_def closeUploadModal_def reader_onerror_def carries_session_def\<close>)

lemma run_keeps_session:
  "carries_session (sessionId s) s \<Longrightarrow>
   sessionId (run s evs) = sessionId s \<and> carries_session (sessionId s) (run s evs)"
proof (induction evs rule: rev_induct)
  case Nil
  then show ?case by (simp add: run_def)
next
  case (snoc e evs)
  then have "sessionId (run s evs) = sessionId s" "carries_session (sessionId s) (run s evs)"
    by simp_all
  then show ?case
    using step_sessionId [of "run s evs" e] step_carries_session [of "sessionId s" "run s evs" e]
    by (simp add: run_def)
qed

text \<open>
  Claim C10. Loading the page draws one session identifier, \<open>session_\<close> followed by the
  characters 2 to 14 of \<^verbatim>\<open>Math.random().toString(36)\<close> (the digits after \<open>0.\<close>, at
  most thirteen of them, all of them characters of that string). Whatever happens
  afterwards, the identifier of the page stays that one, and every request sent to the
  chat endpoint carries it as \<open>session_id\<close>.
\<close>

theorem one_session_id_per_page:
  "sessionId (page_load random36 doc) = ''session_'' @ substring2 2 15 random36
   \<and> sessionId (page_load (''0.'' @ digits) doc) = ''session_'' @ take 13 digits
   \<and> set (substring2 2 15 random36) \<subseteq> set random36
   \<and> sessionId (run (page_load random36 doc) evs) = sessionId (page_load random36 doc)
   \<and> carries_session (sessionId (page_load random36 doc)) (run (page_load random36 doc) evs)"
proof -
  have "carries_session (sessionId (page_load random36 doc)) (page_load random36 doc)"
    using endpoints_differ
    by (simp add: carries_session_def page_load_def checkHealth_def fetch_get_def)
  from run_keeps_session [OF this, of evs]
  have "sessionId (run (page_load random36 doc) evs) = sessionId (page_load random36 doc)"
    and "carries_session (sessionId (page_load random36 doc)) (run (page_load random36 doc) evs)"
    by simp_all
  moreover have "sessionId (page_load random36 doc) = ''session_'' @ substring2 2 15 random36"
    by (simp add: page_load_def checkHealth_def fetch_get_def)
  moreover have "set (substring2 2 15 random36) \<subseteq> set random36"
    by (auto simp: substring2_def Let_def dest: in_set_takeD in_set_dropD)
  moreover have "take (min 13 (length digits)) digits = take 13 digits"
    by (cases "13 \<le> length digits") (simp_all add: min_def)
  then have "sessionId (page_load (''0.'' @ digits) doc) = ''session_'' @ take 13 digits"
    by (simp add: page_load_def checkHealth_def fetch_get_def substring2_def clamp_index_def)
  ultimately show ?thesis by blast
qed

text \<open>
  Two questions on the page of the example, with a reply in between: both requests carry
  the identifier drawn at load.
\<close>

theorem one_session_id_per_page_witness:
  "map session_id_of
     (filter (\<lambda>r. req_url r = CHAT_ENDPOINT)
        (requests (run (page_load ''0.4fzyo82mvyr'' blank_page)
           [EditInput ''Hello'' 24, ClickSend, ChatReply 2 Rejected,
            EditInput ''Anyone?'' 24, KeyPress ''Enter'' False]))) =
   [JStr ''session_4fzyo82mvyr'', JStr ''session_4fzyo82mvyr'']
   \<and> sessionId (page_load ''0.4fzyo82mvyr'' blank_page) = ''session_4fzyo82mvyr''"
proof -
  let ?evs = "[EditInput ''Hello'' 24, ClickSend, ChatReply 2 Rejected,
               EditInput ''Anyone?'' 24, KeyPress ''Enter'' False]"
  have t: "trim ''Hello'' = ''Hello''" "trim ''Anyone?'' = ''Anyone?''"
    by (simp_all add: trim_def is_js_space_def)
  have urls: "map req_url (requests (run (page_load ''0.4fzyo82mvyr'' blank_page) ?evs)) =
              [HEALTH_ENDPOINT, CHAT_ENDPOINT, CHAT_ENDPOINT]"
    unfolding run_def demo_page_def [symmetric] demo_page_eq
    by (simp add: autoResizeTextarea_def handleInputKeypress_def sendMessage_nonempty t
        chat_reply_def chat_catch_present blank_page_def)
  have sid: "sessionId (page_load ''0.4fzyo82mvyr'' blank_page) = ''session_4fzyo82mvyr''"
    using demo_page_eq by (simp add: demo_page_def)
  from one_session_id_per_page [of "''0.4fzyo82mvyr''" blank_page "''4fzyo82mvyr''" ?evs]
  have "carries_session (sessionId (page_load ''0.4fzyo82mvyr'' blank_page))
          (run (page_load ''0.4fzyo82mvyr'' blank_page) ?evs)"
    by blast
  then have "carries_session ''session_4fzyo82mvyr''
          (run (page_load ''0.4fzyo82mvyr'' blank_page) ?evs)"
    by (simp only: sid)
  then have "\<forall>r \<in> set (requests (run (page_load ''0.4fzyo82mvyr'' blank_page) ?evs)).
               req_url r = CHAT_ENDPOINT \<longrightarrow> session_id_of r = JStr ''session_4fzyo82mvyr''"
    by (simp only: carries_session_def)
  then have "map session_id_of (filter (\<lambda>r. req_url r = CHAT_ENDPOINT)
               (requests (run (page_load ''0.4fzyo82mvyr'' blank_page) ?evs))) =
             map (\<lambda>r. JStr ''session_4fzyo82mvyr'') (filter (\<lambda>r. req_url r = CHAT_ENDPOINT)
               (requests (run (page_load ''0.4fzyo82mvyr'' blank_page) ?evs)))"
    by (intro map_cong refl) simp
  moreover have "length (filter (\<lambda>r. req_url r = CHAT_ENDPOINT)
               (requests (run (page_load ''0.4fzyo82mvyr'' blank_page) ?evs))) = 2"
  proof -
    have "length (filter (\<lambda>r. req_url r = CHAT_ENDPOINT)
               (requests (run (page_load ''0.4fzyo82mvyr'' blank_page) ?evs))) =
          length (filter (\<lambda>u. u = CHAT_ENDPOINT)
               (map req_url (requests (run (page_load ''0.4fzyo82mvyr'' blank_page) ?evs))))"
      by (simp add: filter_map comp_def)
    then show ?thesis
      using endpoints_differ by (simp only: urls) simp
  qed
  ultimately show ?thesis
    using sid by (simp add: map_replicate_const numeral_2_eq_2)
qed

subsection \<open>Uploading a document\<close>

lemma base64Data_payload:
  assumes "CHR '','' \<notin> set header" and "CHR '','' \<notin> set payload"
  shows "base64Data (header @ '','' @ payload) = JStr payload"
  using assms by (simp add: base64Data_def split_on_first split_on_none)

lemma base64Data_second:
  assumes "CHR '','' \<notin> set header" and "CHR '','' \<notin> set payload"
    and "rest = [] \<or> hd rest = CHR '',''"
  shows "base64Data (header @ '','' @ payload @ rest) = JStr payload"
proof (cases rest)
  case Nil
  with assms(1,2) show ?thesis by (simp add: base64Data_def split_on_first split_on_none)
next
  case (Cons c r)
  with assms(3) have "rest = CHR '','' # r" by simp
  with assms(1,2) show ?thesis by (simp add: base64Data_def split_on_first)
qed

lemma base64Data_no_comma: "CHR '','' \<notin> set result \<Longrightarrow> base64Data result = JUndefined"
  by (simp add: base64Data_def split_on_none)

lemma reader_onload_step:
  assumes "f \<in> set (pending_reads t)"
  shows "step t (ReaderLoad f result) =
           t\<lparr>pending_reads := remove1 f (pending_reads t),
             requests := requests t @
               [\<lparr>req_url = UPLOAD_ENDPOINT, req_method = ''POST'',
                 req_headers = [(''Content-Type'', ''application/json'')],
                 req_body = Some (json_object [(''file'', base64Data result),
                                               (''filename'', JStr (file_name f))])\<rparr>],
             pending_uploads := pending_uploads t @ [f]\<rparr>"
  using assms by (simp add: reader_onload_def fetch_post_def Let_def)

lemma upload_reply_success:
  assumes "get_prop data ''success'' = Inr success" and "truthy success"
    and "get_prop data ''message'' = Inr message"
    and "to_string (js_or message (JStr ''Document uploaded successfully!'')) = Inr shown"
  shows "upload_reply f (Resolved data) t =
           (None,
            t\<lparr>pending_uploads := remove1 f (pending_uploads t),
              upload_status_text := shown,
              upload_status_class := ''text-success'',
              upload_progress_width := ''100%'',
              chat_messages := chat_messages t @
                [Node (next_id t) ''message bot''
                   (Paragraphs (paragraphs ''bot'' (learned_message (file_name f))))],
              next_id := Suc (next_id t),
              timers := Suc (timers t)\<rparr>)"
  using assms by (simp add: upload_reply_def upload_then_def addMessageToChat_JStr Let_def)

lemma upload_reply_failure:
  assumes "get_prop data ''success'' = Inr success" and "\<not> truthy success"
    and "get_prop data ''error'' = Inr err"
    and "to_string (js_or err (JStr ''Unknown error'')) = Inr shown"
  shows "upload_reply f (Resolved data) t =
           (None,
            t\<lparr>pending_uploads := remove1 f (pending_uploads t),
              upload_status_text := ''Error: '' @ shown,
              upload_status_class := ''text-error'',
              confirm_disabled := False\<rparr>)"
  using assms by (simp add: upload_reply_def upload_then_def Let_def)

lemma upload_reply_throws:
  assumes "get_prop data ''success'' = Inr success"
    and "truthy success \<and> get_prop data ''message'' = Inr v
         \<or> \<not> truthy success \<and> get_prop data ''error'' = Inr v"
    and "truthy v" and "to_string v = Inl thrown"
  shows "upload_reply f (Resolved data) t =
           (None,
            t\<lparr>pending_uploads := remove1 f (pending_uploads t),
              upload_status_text := ''Upload failed. Please try again.'',
              upload_status_class := ''text-error'',
              confirm_disabled := False,
              console := console t @ [''Error uploading document:'']\<rparr>)"
  using assms
  by (auto simp: upload_reply_def upload_then_def upload_catch_def js_or_def Let_def)

text \<open>
  Claim C7, as the specification states it, fails on the client. On the page of the
  example with \<open>faq.pdf\<close> selected and the upload confirmed: when the read completes
  with a data URL that has no comma (\<^verbatim>\<open>data:\<close>, as for an empty file), the body
  of the POST holds the \<open>filename\<close> alone and no \<open>file\<close>; and when the read fails,
  nothing is posted at all, the only request of the page being the health check.
\<close>

theorem upload_without_payload_omits_file:
  "requests (run demo_selected [ClickConfirm, ReaderLoad \<lparr>file_name = ''faq.pdf''\<rparr> ''data:'']) =
     [\<lparr>req_url = HEALTH_ENDPOINT, req_method = ''GET'', req_headers = [], req_body = None\<rparr>,
      \<lparr>req_url = UPLOAD_ENDPOINT, req_method = ''POST'',
        req_headers = [(''Content-Type'', ''application/json'')],
        req_body = Some (JObj [(''filename'', JStr ''faq.pdf'')])\<rparr>]
   \<and> requests (run demo_selected [ClickConfirm, ReaderError \<lparr>file_name = ''faq.pdf''\<rparr>]) =
     [\<lparr>req_url = HEALTH_ENDPOINT, req_method = ''GET'', req_headers = [], req_body = None\<rparr>]
   \<and> upload_status_text
       (run demo_selected [ClickConfirm, ReaderError \<lparr>file_name = ''faq.pdf''\<rparr>]) =
     ''Error reading file. Please try again.''"
proof -
  have b64: "base64Data ''data:'' = JUndefined"
    by (simp add: base64Data_def)
  show ?thesis
    unfolding run_def demo_selected_eq
    by (simp add: uploadDocument_def reader_onload_def reader_onerror_def fetch_post_def
        json_object_def b64 blank_page_def)
qed

text \<open>
  Claim C7, amended. When the upload is confirmed with a file selected, the read of the
  file is started and nothing is sent yet. When the read completes with a data URL that
  is a header, a comma and a payload, with no comma in the header and none in the payload
  (whatever follows a second comma), one POST goes to the upload endpoint whose body is
  the object of the payload, as \<open>file\<close>, and of the name of the file, as \<open>filename\<close>,
  and the answer is awaited. When the read completes with a data URL that has no comma,
  the body of the POST holds the \<open>filename\<close> alone. When the read fails, nothing is
  posted, the status line tells that the file could not be read, and the confirm button
  is enabled again. On a truthy \<open>success\<close> the status line is given the \<open>message\<close> of
  the answer when that is a string that is not empty, \<open>Document uploaded
  successfully!\<close> when it is missing or falsy, and the string form of any other value
  that has one; a bot message naming the file is added to the chat and the timer that
  closes the dialogue is started. On a falsy \<open>success\<close> the status line is given
  \<open>Error: \<close> followed by the \<open>error\<close> of the answer when that is a string that is
  not empty, by \<open>Unknown error\<close> when it is missing or falsy, and by the string form of
  any other value that has one; the confirm button is enabled again. When the value to
  display has no string form, the status line is given \<open>Upload failed. Please try
  again.\<close>
\<close>

theorem upload_posts_file_and_shows_result:
  assumes "file_upload s = Some f"
    and "f \<in> set (pending_reads t)"
    and "get_prop data ''success'' = Inr success"
  shows "uploadDocument s =
           s\<lparr>upload_status_text := ''Uploading...'', confirm_disabled := True,
             upload_progress_width := ''0'', pending_reads := pending_reads s @ [f]\<rparr>
      \<and> requests (uploadDocument s) = requests s
      \<and> (\<not> confirm_disabled s \<longrightarrow> step s ClickConfirm = uploadDocument s)
      \<and> (CHR '','' \<notin> set header \<and> CHR '','' \<notin> set payload
           \<and> (rest = [] \<or> hd rest = CHR '','') \<longrightarrow>
           step t (ReaderLoad f (header @ '','' @ payload @ rest)) =
             t\<lparr>pending_reads := remove1 f (pending_reads t),
               requests := requests t @
                 [\<lparr>req_url = UPLOAD_ENDPOINT, req_method = ''POST'',
                   req_headers = [(''Content-Type'', ''application/json'')],
                   req_body = Some (JObj [(''file'', JStr payload),
                                          (''filename'', JStr (file_name f))])\<rparr>],
               pending_uploads := pending_uploads t @ [f]\<rparr>)
      \<and> (CHR '','' \<notin> set result \<longrightarrow>
           step t (ReaderLoad f result) =
             t\<lparr>pending_reads := remove1 f (pending_reads t),
               requests := requests t @
                 [\<lparr>req_url = UPLOAD_ENDPOINT, req_method = ''POST'',
                   req_headers = [(''Content-Type'', ''application/json'')],
                   req_body = Some (JObj [(''filename'', JStr (file_name f))])\<rparr>],
               pending_uploads := pending_uploads t @ [f]\<rparr>)
      \<and> step t (ReaderError f) =
           t\<lparr>pending_reads := remove1 f (pending_reads t),
             upload_status_text := ''Error reading file. Please try again.'',
             upload_status_class := ''text-error'',
             confirm_disabled := False\<rparr>
      \<and> (truthy success \<and> get_prop data ''message'' = Inr (JStr m) \<and> m \<noteq> [] \<longrightarrow>
           upload_reply f (Resolved data) u =
             (None,
              u\<lparr>pending_uploads := remove1 f (pending_uploads u),
                upload_status_text := m,
                upload_status_class := ''text-success'',
                upload_progress_width := ''100%'',
                chat_messages := chat_messages u @
                  [Node (next_id u) ''message bot''
                     (Paragraphs (paragraphs ''bot'' (learned_message (file_name f))))],
                next_id := Suc (next_id u),
                timers := Suc (timers u)\<rparr>))
      \<and> (truthy success \<and> get_prop data ''message'' = Inr v \<and> \<not> truthy v \<longrightarrow>
           fst (upload_reply f (Resolved data) u) = None
           \<and> upload_status_text (snd (upload_reply f (Resolved data) u)) =
               ''Document uploaded successfully!''
           \<and> upload_status_class (snd (upload_reply f (Resolved data) u)) = ''text-success'')
      \<and> (truthy success \<and> get_prop data ''message'' = Inr v \<and> truthy v
           \<and> to_string v = Inr shown \<longrightarrow>
           fst (upload_reply f (Resolved data) u) = None
           \<and> upload_status_text (snd (upload_reply f (Resolved data) u)) = shown
           \<and> upload_status_class (snd (upload_reply f (Resolved data) u)) = ''text-success'')
      \<and> (\<not> truthy success \<and> get_prop data ''error'' = Inr (JStr e) \<and> e \<noteq> [] \<longrightarrow>
           upload_reply f (Resolved data) u =
             (None,
              u\<lparr>pending_uploads := remove1 f (pending_uploads u),
                upload_status_text := ''Error: '' @ e,
                upload_status_class := ''text-error'',
                confirm_disabled := False\<rparr>))
      \<and> (\<not> truthy success \<and> get_prop data ''error'' = Inr v \<and> \<not> truthy v \<longrightarrow>
           upload_reply f (Resolved data) u =
             (None,
              u\<lparr>pending_uploads := remove1 f (pending_uploads u),
                upload_status_text := ''Error: Unknown error'',
                upload_status_class := ''text-error'',
                confirm_disabled := False\<rparr>))
      \<and> (\<not> truthy success \<and> get_prop data ''error'' = Inr v \<and> truthy v
           \<and> to_string v = Inr shown \<longrightarrow>
           upload_reply f (Resolved data) u =
             (None,
              u\<lparr>pending_uploads := remove1 f (pending_uploads u),
                upload_status_text := ''Error: '' @ shown,
                upload_status_class := ''text-error'',
                confirm_disabled := False\<rparr>))
      \<and> ((truthy success \<and> get_prop data ''message'' = Inr v
            \<or> \<not> truthy success \<and> get_prop data ''error'' = Inr v)
           \<and> truthy v \<and> to_string v = Inl thrown \<longrightarrow>
           upload_reply f (Resolved data) u =
             (None,
              u\<lparr>pending_uploads := remove1 f (pending_uploads u),
                upload_status_text := ''Upload failed. Please try again.'',
                upload_status_class := ''text-error'',
                confirm_disabled := False,
                console := console u @ [''Error uploading document:'']\<rparr>))"
proof (intro conjI impI)
  show "uploadDocument s =
           s\<lparr>upload_status_text := ''Uploading...'', confirm_disabled := True,
             upload_progress_width := ''0'', pending_reads := pending_reads s @ [f]\<rparr>"
    using assms(1) by (simp add: uploadDocument_def)
next
  show "requests (uploadDocument s) = requests s"
    using assms(1) by (simp add: uploadDocument_def)
next
  assume "\<not> confirm_disabled s"
  then show "step s ClickConfirm = uploadDocument s" by simp
next
  assume "CHR '','' \<notin> set header \<and> CHR '','' \<notin> set payload
           \<and> (rest = [] \<or> hd rest = CHR '','')"
  then have "base64Data (header @ '','' @ payload @ rest) = JStr payload"
    using base64Data_second [of header payload rest] by blast
  then show "step t (ReaderLoad f (header @ '','' @ payload @ rest)) =
             t\<lparr>pending_reads := remove1 f (pending_reads t),
               requests := requests t @
                 [\<lparr>req_url = UPLOAD_ENDPOINT, req_method = ''POST'',
                   req_headers = [(''Content-Type'', ''application/json'')],
                   req_body = Some (JObj [(''file'', JStr payload),
                                          (''filename'', JStr (file_name f))])\<rparr>],
               pending_uploads := pending_uploads t @ [f]\<rparr>"
    by (simp only: reader_onload_step [OF assms(2)]) (simp add: json_object_def)
next
  assume "CHR '','' \<notin> set result"
  then have "base64Data result = JUndefined"
    by (rule base64Data_no_comma)
  then show "step t (ReaderLoad f result) =
             t\<lparr>pending_reads := remove1 f (pending_reads t),
               requests := requests t @
                 [\<lparr>req_url = UPLOAD_ENDPOINT, req_method = ''POST'',
                   req_headers = [(''Content-Type'', ''application/json'')],
                   req_body = Some (JObj [(''filename'', JStr (file_name f))])\<rparr>],
               pending_uploads := pending_uploads t @ [f]\<rparr>"
    by (simp only: reader_onload_step [OF assms(2)]) (simp add: json_object_def)
next
  show "step t (ReaderError f) =
           t\<lparr>pending_reads := remove1 f (pending_reads t),
             upload_status_text := ''Error reading file. Please try again.'',
             upload_status_class := ''text-error'',
             confirm_disabled := False\<rparr>"
    using assms(2) by (simp add: reader_onerror_def)
next
  assume "truthy success \<and> get_prop data ''message'' = Inr (JStr m) \<and> m \<noteq> []"
  then show "upload_reply f (Resolved data) u =
             (None,
              u\<lparr>pending_uploads := remove1 f (pending_uploads u),
                upload_status_text := m,
                upload_status_class := ''text-success'',
                upload_progress_width := ''100%'',
                chat_messages := chat_messages u @
                  [Node (next_id u) ''message bot''
                     (Paragraphs (paragraphs ''bot'' (learned_message (file_name f))))],
                next_id := Suc (next_id u),
                timers := Suc (timers u)\<rparr>)"
    using upload_reply_success [OF assms(3), of "JStr m" m f u] js_or_string [of m]
    by blast
next
  assume a: "truthy success \<and> get_prop data ''message'' = Inr v \<and> \<not> truthy v"
  then have "to_string (js_or v (JStr ''Document uploaded successfully!'')) =
             Inr ''Document uploaded successfully!''"
    by (simp add: js_or_falsy)
  with a upload_reply_success [OF assms(3), of v "''Document uploaded successfully!''" f u]
  show "fst (upload_reply f (Resolved data) u) = None"
    and "upload_status_text (snd (upload_reply f (Resolved data) u)) =
               ''Document uploaded successfully!''"
    and "upload_status_class (snd (upload_reply f (Resolved data) u)) = ''text-success''"
    by simp_all
next
  assume a: "truthy success \<and> get_prop data ''message'' = Inr v \<and> truthy v
           \<and> to_string v = Inr shown"
  then have "to_string (js_or v (JStr ''Document uploaded successfully!'')) = Inr shown"
    by (simp add: js_or_truthy)
  with a upload_reply_success [OF assms(3), of v shown f u]
  show "fst (upload_reply f (Resolved data) u) = None"
    and "upload_status_text (snd (upload_reply f (Resolved data) u)) = shown"
    and "upload_status_class (snd (upload_reply f (Resolved data) u)) = ''text-success''"
    by simp_all
next
  assume "\<not> truthy success \<and> get_prop data ''error'' = Inr (JStr e) \<and> e \<noteq> []"
  then show "upload_reply f (Resolved data) u =
             (None,
              u\<lparr>pending_uploads := remove1 f (pending_uploads u),
                upload_status_text := ''Error: '' @ e,
                upload_status_class := ''text-error'',
                confirm_disabled := False\<rparr>)"
    using upload_reply_failure [OF assms(3), of "JStr e" e f u] js_or_string [of e]
    by blast
next
  assume a: "\<not> truthy success \<and> get_prop data ''error'' = Inr v \<and> \<not> truthy v"
  then have "to_string (js_or v (JStr ''Unknown error'')) = Inr ''Unknown error''"
    by (simp add: js_or_falsy)
  with a upload_reply_failure [OF assms(3), of v "''Unknown error''" f u]
  show "upload_reply f (Resolved data) u =
             (None,
              u\<lparr>pending_uploads := remove1 f (pending_uploads u),
                upload_status_text := ''Error: Unknown error'',
                upload_status_class := ''text-error'',
                confirm_disabled := False\<rparr>)"
    by simp
next
  assume a: "\<not> truthy success \<and> get_prop data ''error'' = Inr v \<and> truthy v
           \<and> to_string v = Inr shown"
  then have "to_string (js_or v (JStr ''Unknown error'')) = Inr shown"
    by (simp add: js_or_truthy)
  with a upload_reply_failure [OF assms(3), of v shown f u]
  show "upload_reply f (Resolved data) u =
             (None,
              u\<lparr>pending_uploads := remove1 f (pending_uploads u),
                upload_status_text := ''Error: '' @ shown,
                upload_status_class := ''text-error'',
                confirm_disabled := False\<rparr>)"
    by simp
next
  assume "(truthy success \<and> get_prop data ''message'' = Inr v
            \<or> \<not> truthy success \<and> get_prop data ''error'' = Inr v)
           \<and> truthy v \<and> to_string v = Inl thrown"
  then show "upload_reply f (Resolved data) u =
             (None,
              u\<lparr>pending_uploads := remove1 f (pending_uploads u),
                upload_status_text := ''Upload failed. Please try again.'',
                upload_status_class := ''text-error'',
                confirm_disabled := False,
                console := console u @ [''Error uploading document:'']\<rparr>)"
    using upload_reply_throws [OF assms(3), of v thrown f u] by blast
qed

text \<open>
  The dialogue of the example page with \<open>faq.pdf\<close> selected: the read file is posted
  under its name, also when the data URL has a second comma; a data URL with no comma
  gives a body with no \<open>file\<close>; a failed read posts nothing; and the answers are
  displayed as their fields tell, with the defaults when the fields are missing, the
  string form of a list, and the failure message for an object with a \<open>toString\<close>
  property of its own.
\<close>

theorem upload_posts_file_and_shows_result_witness:
  "file_upload demo_selected = Some \<lparr>file_name = ''faq.pdf''\<rparr>
   \<and> \<not> confirm_disabled demo_selected
   \<and> \<lparr>file_name = ''faq.pdf''\<rparr> \<in> set (pending_reads (step demo_selected ClickConfirm))
   \<and> upload_status_text (step demo_selected ClickConfirm) = ''Uploading...''
   \<and> map req_body (requests (run demo_selected
         [ClickConfirm,
          ReaderLoad \<lparr>file_name = ''faq.pdf''\<rparr> ''data:application/pdf;base64,JVBERi0x''])) =
       [None, Some (JObj [(''file'', JStr ''JVBERi0x''), (''filename'', JStr ''faq.pdf'')])]
   \<and> map req_body (requests (run demo_selected
         [ClickConfirm,
          ReaderLoad \<lparr>file_name = ''faq.pdf''\<rparr> ''data:text/plain;x=a,b64,JVBERi0x,tail''])) =
       [None, Some (JObj [(''file'', JStr ''b64''), (''filename'', JStr ''faq.pdf'')])]
   \<and> map req_body (requests (run demo_selected
         [ClickConfirm, ReaderLoad \<lparr>file_name = ''faq.pdf''\<rparr> ''data:''])) =
       [None, Some (JObj [(''filename'', JStr ''faq.pdf'')])]
   \<and> map req_body (requests (run demo_selected
         [ClickConfirm, ReaderError \<lparr>file_name = ''faq.pdf''\<rparr>])) = [None]
   \<and> \<not> confirm_disabled (run demo_selected
         [ClickConfirm, ReaderError \<lparr>file_name = ''faq.pdf''\<rparr>])
   \<and> upload_status_text (snd (upload_reply \<lparr>file_name = ''faq.pdf''\<rparr>
         (Resolved (JObj [(''success'', JBool True), (''message'', JStr ''Stored 4 chunks'')]))
         demo_selected)) = ''Stored 4 chunks''
   \<and> upload_status_text (snd (upload_reply \<lparr>file_name = ''faq.pdf''\<rparr>
         (Resolved (JObj [(''success'', JBool True)])) demo_selected)) =
       ''Document uploaded successfully!''
   \<and> upload_status_text (snd (upload_reply \<lparr>file_name = ''faq.pdf''\<rparr>
         (Resolved (JObj [(''success'', JBool True),
                          (''message'', JArr [JStr ''a'', JNull, JArr [JBool False, JObj []]])]))
         demo_selected)) = ''a,,false,[object Object]''
   \<and> upload_status_text (snd (upload_reply \<lparr>file_name = ''faq.pdf''\<rparr>
         (Resolved (JObj [(''success'', JBool False), (''error'', JStr ''Empty document'')]))
         demo_selected)) = ''Error: Empty document''
   \<and> upload_status_text (snd (upload_reply \<lparr>file_name = ''faq.pdf''\<rparr>
         (Resolved (JObj [(''success'', JBool False), (''error'', JNull)]))
         demo_selected)) = ''Error: Unknown error''
   \<and> upload_status_text (snd (upload_reply \<lparr>file_name = ''faq.pdf''\<rparr>
         (Resolved (JObj [(''success'', JBool False), (''error'', JObj [(''code'', JNull)])]))
         demo_selected)) = ''Error: [object Object]''
   \<and> upload_status_text (snd (upload_reply \<lparr>file_name = ''faq.pdf''\<rparr>
         (Resolved (JObj [(''success'', JBool False),
                          (''error'', JObj [(''toString'', JStr ''x'')])]))
         demo_selected)) = ''Upload failed. Please try again.''"
proof -
  let ?f = "\<lparr>file_name = ''faq.pdf''\<rparr>"
  let ?ok = "JObj [(''success'', JBool True), (''message'', JStr ''Stored 4 chunks'')]"
  let ?okd = "JObj [(''success'', JBool True)]"
  let ?okl = "JObj [(''success'', JBool True),
                    (''message'', JArr [JStr ''a'', JNull, JArr [JBool False, JObj []]])]"
  let ?bad = "JObj [(''success'', JBool False), (''error'', JStr ''Empty document'')]"
  let ?badn = "JObj [(''success'', JBool False), (''error'', JNull)]"
  let ?bado = "JObj [(''success'', JBool False), (''error'', JObj [(''code'', JNull)])]"
  let ?badt = "JObj [(''success'', JBool False), (''error'', JObj [(''toString'', JStr ''x'')])]"
  let ?t = "step demo_selected ClickConfirm"
  have sel: "file_upload demo_selected = Some ?f" and en: "\<not> confirm_disabled demo_selected"
    and rq: "map req_body (requests demo_selected) = [None]"
    by (simp_all add: demo_selected_eq)
  have t: "?t = demo_selected\<lparr>upload_status_text := ''Uploading...'',
      confirm_disabled := True, upload_progress_width := ''0'',
      pending_reads := pending_reads demo_selected @ [?f]\<rparr>"
    using sel en by (simp add: uploadDocument_def)
  have pend: "?f \<in> set (pending_reads ?t)"
    by (simp only: t) simp
  have rt: "map req_body (requests ?t) = [None]"
    using rq by (simp only: t) simp
  have u: "upload_status_text ?t = ''Uploading...''"
    by (simp only: t) simp
  have ok: "get_prop ?ok ''success'' = Inr (JBool True)"
    and ok0: "get_prop ?okd ''success'' = Inr (JBool True)"
    and okl: "get_prop ?okl ''success'' = Inr (JBool True)"
    and bad: "get_prop ?bad ''success'' = Inr (JBool False)"
    and bad0: "get_prop ?badn ''success'' = Inr (JBool False)"
    and bado: "get_prop ?bado ''success'' = Inr (JBool False)"
    and badt: "get_prop ?badt ''success'' = Inr (JBool False)"
    by simp_all
  have a1: "map req_body (requests (run demo_selected
         [ClickConfirm, ReaderLoad ?f ''data:application/pdf;base64,JVBERi0x''])) =
       [None, Some (JObj [(''file'', JStr ''JVBERi0x''), (''filename'', JStr ''faq.pdf'')])]"
    using upload_posts_file_and_shows_result [OF sel pend ok,
        where header = "''data:application/pdf;base64''" and payload = "''JVBERi0x''"
          and rest = "[]", THEN conjunct2, THEN conjunct2, THEN conjunct2, THEN conjunct1] rt
    by (simp add: run_def)
  have a2: "map req_body (requests (run demo_selected
         [ClickConfirm, ReaderLoad ?f ''data:text/plain;x=a,b64,JVBERi0x,tail''])) =
       [None, Some (JObj [(''file'', JStr ''b64''), (''filename'', JStr ''faq.pdf'')])]"
    using upload_posts_file_and_shows_result [OF sel pend ok,
        where header = "''data:text/plain;x=a''" and payload = "''b64''"
          and rest = "'',JVBERi0x,tail''", THEN conjunct2, THEN conjunct2, THEN conjunct2, THEN conjunct1] rt
    by (simp add: run_def)
  have a3: "map req_body (requests (run demo_selected [ClickConfirm, ReaderLoad ?f ''data:''])) =
       [None, Some (JObj [(''filename'', JStr ''faq.pdf'')])]"
    using upload_posts_file_and_shows_result [OF sel pend ok, where result = "''data:''",
        THEN conjunct2, THEN conjunct2, THEN conjunct2, THEN conjunct2, THEN conjunct1] rt
    by (simp add: run_def)
  have a4: "map req_body (requests (run demo_selected [ClickConfirm, ReaderError ?f])) = [None]
       \<and> \<not> confirm_disabled (run demo_selected [ClickConfirm, ReaderError ?f])"
    using upload_posts_file_and_shows_result [OF sel pend ok, THEN conjunct2, THEN conjunct2, THEN conjunct2, THEN conjunct2, THEN conjunct2, THEN conjunct1] rt
    by (simp add: run_def)
  have b1: "upload_status_text (snd (upload_reply ?f (Resolved ?ok) demo_selected)) =
            ''Stored 4 chunks''"
    using upload_posts_file_and_shows_result [OF sel pend ok,
        where m = "''Stored 4 chunks''" and u = demo_selected, THEN conjunct2, THEN conjunct2, THEN conjunct2, THEN conjunct2, THEN conjunct2, THEN conjunct2, THEN conjunct1]
    by simp
  have b2: "upload_status_text (snd (upload_reply ?f (Resolved ?okd) demo_selected)) =
            ''Document uploaded successfully!''"
    using upload_posts_file_and_shows_result [OF sel pend ok0,
        where v = JUndefined and u = demo_selected, THEN conjunct2, THEN conjunct2, THEN conjunct2, THEN conjunct2, THEN conjunct2, THEN conjunct2, THEN conjunct2, THEN conjunct1]
    by simp
  have b3: "upload_status_text (snd (upload_reply ?f (Resolved ?okl) demo_selected)) =
            ''a,,false,[object Object]''"
    using upload_posts_file_and_shows_result [OF sel pend okl,
        where v = "JArr [JStr ''a'', JNull, JArr [JBool False, JObj []]]"
          and shown = "''a,,false,[object Object]''" and u = demo_selected, THEN conjunct2, THEN conjunct2, THEN conjunct2, THEN conjunct2, THEN conjunct2, THEN conjunct2, THEN conjunct2, THEN conjunct2, THEN conjunct1]
    by simp
  have c1: "upload_status_text (snd (upload_reply ?f (Resolved ?bad) demo_selected)) =
            ''Error: Empty document''"
    using upload_posts_file_and_shows_result [OF sel pend bad,
        where e = "''Empty document''" and u = demo_selected, THEN conjunct2, THEN conjunct2, THEN conjunct2, THEN conjunct2, THEN conjunct2, THEN conjunct2, THEN conjunct2, THEN conjunct2, THEN conjunct2, THEN conjunct1]
    by simp
  have c2: "upload_status_text (snd (upload_reply ?f (Resolved ?badn) demo_selected)) =
            ''Error: Unknown error''"
    using upload_posts_file_and_shows_result [OF sel pend bad0,
        where v = JNull and u = demo_selected, THEN conjunct2, THEN conjunct2, THEN conjunct2, THEN conjunct2, THEN conjunct2, THEN conjunct2, THEN conjunct2, THEN conjunct2, THEN conjunct2, THEN conjunct2, THEN conjunct1]
    by simp
  have c3: "upload_status_text (snd (upload_reply ?f (Resolved ?bado) demo_selected)) =
            ''Error: [object Object]''"
    using upload_posts_file_and_shows_result [OF sel pend bado,
        where v = "JObj [(''code'', JNull)]" and shown = "''[object Object]''"
          and u = demo_selected, THEN conjunct2, THEN conjunct2, THEN conjunct2, THEN conjunct2, THEN conjunct2, THEN conjunct2, THEN conjunct2, THEN conjunct2, THEN conjunct2, THEN conjunct2, THEN conjunct2, THEN conjunct1]
    by simp
  have c4: "upload_status_text (snd (upload_reply ?f (Resolved ?badt) demo_selected)) =
            ''Upload failed. Please try again.''"
    using upload_posts_file_and_shows_result [OF sel pend badt,
        where v = "JObj [(''toString'', JStr ''x'')]" and thrown = TypeError
          and u = demo_selected, THEN conjunct2, THEN conjunct2, THEN conjunct2, THEN conjunct2, THEN conjunct2, THEN conjunct2, THEN conjunct2, THEN conjunct2, THEN conjunct2, THEN conjunct2, THEN conjunct2, THEN conjunct2]
    by simp
  from sel en pend u a1 a2 a3 a4 b1 b2 b3 c1 c2 c3 c4 show ?thesis
    by blast
qed

subsection \<open>A file of an unsupported type\<close>

text \<open>
  What \<open>handleFileSelect\<close> does with a file whose extension is not valid: the error
  message is displayed, nothing is sent, and the confirm button is left as it was. So a
  button that was disabled stays disabled, and the click on it then does nothing.
\<close>

lemma handleFileSelect_invalid:
  assumes "fileExtension (file_name f) \<notin> set validTypes"
  shows "step s (ChangeFile (Some f)) =
           s\<lparr>file_upload := Some f,
             upload_status_text :=
               ''Invalid file type. Please select a PDF, TXT, or DOCX file.'',
             upload_status_class := ''text-error''\<rparr>"
    and "confirm_disabled s \<Longrightarrow>
         step (step s (ChangeFile (Some f))) ClickConfirm = step s (ChangeFile (Some f))"
  using assms by (simp_all add: handleFileSelect_def)

text \<open>
  Claim C4 on the page of the example: the user opens the dialogue, picks \<open>faq.pdf\<close>,
  then picks \<open>setup.exe\<close> instead. The error message is displayed, but the confirm
  button, enabled for the first file, is still enabled; the click on it reads
  \<open>setup.exe\<close>, and the read file is posted to the upload endpoint.
\<close>

theorem invalid_file_after_valid_is_uploaded:
  "upload_status_text
     (run demo_page [ClickUpload, ChangeFile (Some \<lparr>file_name = ''faq.pdf''\<rparr>),
                     ChangeFile (Some \<lparr>file_name = ''setup.exe''\<rparr>)]) =
     ''Invalid file type. Please select a PDF, TXT, or DOCX file.''
   \<and> confirm_disabled
     (run demo_page [ClickUpload, ChangeFile (Some \<lparr>file_name = ''faq.pdf''\<rparr>),
                     ChangeFile (Some \<lparr>file_name = ''setup.exe''\<rparr>)]) = False
   \<and> upload_status_text
     (run demo_page [ClickUpload, ChangeFile (Some \<lparr>file_name = ''faq.pdf''\<rparr>),
                     ChangeFile (Some \<lparr>file_name = ''setup.exe''\<rparr>), ClickConfirm]) =
     ''Uploading...''
   \<and> requests
     (run demo_page [ClickUpload, ChangeFile (Some \<lparr>file_name = ''faq.pdf''\<rparr>),
                     ChangeFile (Some \<lparr>file_name = ''setup.exe''\<rparr>), ClickConfirm,
                     ReaderLoad \<lparr>file_name = ''setup.exe''\<rparr>
                       ''data:application/octet-stream;base64,TVqQ'']) =
     [\<lparr>req_url = HEALTH_ENDPOINT, req_method = ''GET'', req_headers = [], req_body = None\<rparr>,
      \<lparr>req_url = UPLOAD_ENDPOINT, req_method = ''POST'',
        req_headers = [(''Content-Type'', ''application/json'')],
        req_body = Some (JObj [(''file'', JStr ''TVqQ''), (''filename'', JStr ''setup.exe'')])\<rparr>]"
proof -
  have pdf: "fileExtension ''faq.pdf'' = ''.pdf''" and exe: "fileExtension ''setup.exe'' = ''.exe''"
    by (simp_all add: fileExtension_def lastIndexOf_def substring1_def clamp_index_def
        toLowerCase_def lower_char_def Let_def)
  have b64: "base64Data ''data:application/octet-stream;base64,TVqQ'' = JStr ''TVqQ''"
    using base64Data_payload [of "''data:application/octet-stream;base64''" "''TVqQ''"]
    by simp
  show ?thesis
    unfolding run_def demo_page_eq
    by (simp add: openUploadModal_def resetUploadState_def handleFileSelect_def pdf exe
        validTypes_def uploadDocument_def reader_onload_def fetch_post_def json_object_def
        b64 blank_page_def)
qed

end
